theory Spec2Isabelle
  imports Main "HOL-Library.Word" "HOL-Library.Char_ord" "HOL-Library.List_Lexorder"
begin

unbundle bit_operations_syntax

section \<open>Status values\<close>

text \<open>
  \<^verbatim>\<open>Status\<close> (leveldb/status.h) is either OK or one of five error codes carrying a
  message.
\<close>

datatype Status =
    OK
  | NotFound string
  | Corruption string
  | NotSupported string
  | InvalidArgument string
  | IOError string

fun ok :: "Status \<Rightarrow> bool" where
  "ok OK = True"
| "ok _ = False"

text \<open>
  The code is full of \<^verbatim>\<open>assert\<close>s. A failed assertion ends the process in a debug
  build; a read outside a buffer or through a null pointer is undefined behaviour in a
  release build. All three are results of the model. The flag \<open>ndebug\<close> of the functions
  below says that the build defines \<^verbatim>\<open>NDEBUG\<close>, which compiles the assertions out.
\<close>

datatype fault = AssertFailed | OutOfBounds | NullDeref

section \<open>SanitizeOptions (db\_impl.cc)\<close>

text \<open>
  \<^verbatim>\<open>ClipToRange<T, V>(T* ptr, V minvalue, V maxvalue)\<close>. Every call passes \<^verbatim>\<open>int\<close>
  literals, so \<^verbatim>\<open>V = int\<close>: a 32-bit word compared as a signed number. \<^verbatim>\<open>T\<close> is the
  type of the field, a word of any width: \<^verbatim>\<open>static_cast<V>(*ptr)\<close> keeps the low 32 bits
  (\<open>ucast\<close>), and the assignment \<^verbatim>\<open>*ptr = maxvalue\<close> converts the \<^verbatim>\<open>int\<close> back to \<^verbatim>\<open>T\<close>
  (\<open>scast\<close>). The second test reads the pointer again, after the first assignment.
\<close>

definition ClipToRange :: "'a::len word \<Rightarrow> 32 word \<Rightarrow> 32 word \<Rightarrow> 'a word" where
  "ClipToRange p minvalue maxvalue =
     (let p1 = (if maxvalue <s (ucast p :: 32 word) then scast maxvalue else p)
      in if (ucast p1 :: 32 word) <s minvalue then scast minvalue else p1)"

text \<open>
  The \<^verbatim>\<open>Options\<close> fields that \<^verbatim>\<open>SanitizeOptions\<close> touches. options.h is not among the
  sources: \<^verbatim>\<open>max_open_files\<close> is an \<^verbatim>\<open>int\<close> (\<^verbatim>\<open>TableCacheSize\<close> returns it as one), and
  the three sizes are \<^verbatim>\<open>size_t\<close>, 64 bits (\<^verbatim>\<open>RecoverLogFile\<close> compares
  \<^verbatim>\<open>write_buffer_size\<close> with the \<^verbatim>\<open>size_t\<close> of \<^verbatim>\<open>ApproximateMemoryUsage()\<close>). Pointers are
  \<open>nat option\<close>, \<open>None\<close> for \<^verbatim>\<open>nullptr\<close>.
\<close>

record Options =
  comparator :: nat
  filter_policy :: "nat option"
  max_open_files :: "32 word"
  write_buffer_size :: "64 word"
  max_file_size :: "64 word"
  block_size :: "64 word"
  info_log :: "nat option"
  block_cache :: "nat option"

definition kNumNonTableCacheFiles :: "32 word" where
  "kNumNonTableCacheFiles = 10"

text \<open>
  \<^verbatim>\<open>SanitizeOptions(dbname, icmp, ipolicy, src)\<close>. The environment's answers are
  parameters: \<open>new_logger\<close> is what \<^verbatim>\<open>NewLogger\<close> returns (a status and the logger), and
  \<open>new_cache\<close> is the cache that \<^verbatim>\<open>NewLRUCache(8 << 20)\<close> returns.
\<close>

definition SanitizeOptions ::
  "nat \<Rightarrow> nat \<Rightarrow> (Status \<times> nat option) \<Rightarrow> nat \<Rightarrow> Options \<Rightarrow> Options" where
  "SanitizeOptions icmp ipolicy new_logger new_cache src =
     (let result = src;
          result = result\<lparr>comparator := icmp\<rparr>;
          result = result\<lparr>filter_policy :=
                     (if filter_policy src \<noteq> None then Some ipolicy else None)\<rparr>;
          result = result\<lparr>max_open_files :=
                     ClipToRange (max_open_files result) (64 + kNumNonTableCacheFiles) 50000\<rparr>;
          result = result\<lparr>write_buffer_size :=
                     ClipToRange (write_buffer_size result) (push_bit 10 64) (push_bit 30 1)\<rparr>;
          result = result\<lparr>max_file_size :=
                     ClipToRange (max_file_size result) (push_bit 20 1) (push_bit 30 1)\<rparr>;
          result = result\<lparr>block_size :=
                     ClipToRange (block_size result) (push_bit 10 1) (push_bit 20 4)\<rparr>;
          result = (if info_log result = None
                    then result\<lparr>info_log :=
                           (if ok (fst new_logger) then snd new_logger else None)\<rparr>
                    else result);
          result = (if block_cache result = None
                    then result\<lparr>block_cache := Some new_cache\<rparr>
                    else result)
      in result)"

section \<open>Block (table/block.cc)\<close>

type_synonym byte = "8 word"

datatype BlockType =
    DataBlock
  | IndexBlock
  | IndexBlock_Small
  | FilterBlock
  | Block_On_Memory_Side
  | Block_On_Memory_Side_Compressed

text \<open>
  A block. \<open>blk_data\<close> is \<^verbatim>\<open>data_\<close>, the buffer the block points into (it keeps
  its length when \<^verbatim>\<open>size_\<close> is set to the error marker 0), \<open>blk_size\<close> is \<^verbatim>\<open>size_\<close>,
  \<open>restart_offset\<close> is \<^verbatim>\<open>restart_offset_\<close> (unset on the error paths) and \<open>blk_type\<close>
  is \<^verbatim>\<open>type_\<close>. The header table/block.h is not among the sources; as in LevelDB,
  \<^verbatim>\<open>restart_offset_\<close> is a \<^verbatim>\<open>uint32_t\<close>, so the assignment in the constructor keeps the
  low 32 bits of the offset.
\<close>

record Block =
  blk_data :: "byte list"
  blk_size :: nat
  restart_offset :: "32 word option"
  blk_type :: BlockType

text \<open>
  \<^verbatim>\<open>DecodeFixed32\<close> (util/coding.h, not among the sources) reads four bytes, least
  significant first. The functions below take the decoder as the parameter \<open>dec\<close>.
\<close>

definition DecodeFixed32 :: "byte list \<Rightarrow> 32 word" where
  "DecodeFixed32 bs =
     (ucast (bs ! 0) :: 32 word)
     OR push_bit 8 (ucast (bs ! 1))
     OR push_bit 16 (ucast (bs ! 2))
     OR push_bit 24 (ucast (bs ! 3))"

text \<open>
  \<^verbatim>\<open>Block::NumRestarts()\<close>: \<^verbatim>\<open>assert(size_ >= sizeof(uint32_t))\<close>, then the four bytes
  at \<^verbatim>\<open>data_ + size_ - 4\<close>. \<open>ndebug\<close> says that assertions are compiled out; then a
  \<^verbatim>\<open>size_\<close> below 4 makes the read start before the buffer.
\<close>

definition NumRestarts :: "(byte list \<Rightarrow> 32 word) \<Rightarrow> bool \<Rightarrow> byte list \<Rightarrow> nat \<Rightarrow> fault + 32 word" where
  "NumRestarts dec ndebug d sz =
     (if sz < 4 then (if ndebug then Inl OutOfBounds else Inl AssertFailed)
      else if length d < sz then Inl OutOfBounds
      else Inr (dec (take 4 (drop (sz - 4) d))))"

text \<open>
  \<^verbatim>\<open>Block::Block(contents, type)\<close> of table/block.cc. The debug build asserts
  \<^verbatim>\<open>size_ < 8192\<close> for every type but the index and filter blocks, and asserts
  \<^verbatim>\<open>false\<close> where the restart count is too large. The offset of the restart array,
  \<^verbatim>\<open>size_ - (1 + NumRestarts()) * sizeof(uint32_t)\<close>, is the 32-bit sum
  \<^verbatim>\<open>1 + NumRestarts()\<close> widened to \<^verbatim>\<open>size_t\<close> (64 bits), multiplied and subtracted
  there, and then truncated to 32 bits.
\<close>

definition Block_ctor ::
  "(byte list \<Rightarrow> 32 word) \<Rightarrow> bool \<Rightarrow> byte list \<Rightarrow> BlockType \<Rightarrow> fault + Block" where
  "Block_ctor dec ndebug contents type =
     (let b = \<lparr>blk_data = contents, blk_size = length contents, restart_offset = None,
               blk_type = type\<rparr>
      in if \<not> ndebug \<and> type \<noteq> IndexBlock \<and> type \<noteq> IndexBlock_Small \<and> type \<noteq> FilterBlock
            \<and> \<not> blk_size b < 8192
         then Inl AssertFailed
         else if blk_size b < 4 then Inr (b\<lparr>blk_size := 0\<rparr>)
         else
           (let max_restarts_allowed = (blk_size b - 4) div 4
            in case NumRestarts dec ndebug (blk_data b) (blk_size b) of
                 Inl f \<Rightarrow> Inl f
               | Inr n \<Rightarrow>
                   if unat n > max_restarts_allowed
                   then (if ndebug then Inr (b\<lparr>blk_size := 0\<rparr>) else Inl AssertFailed)
                   else Inr (b\<lparr>restart_offset :=
                               Some (ucast ((of_nat (blk_size b) :: 64 word)
                                              - ucast (1 + n) * 4))\<rparr>)))"

datatype Iterator =
    ErrorIterator Status
  | EmptyIterator
  | Iter "byte list" "32 word option" "32 word"

text \<open>
  \<^verbatim>\<open>Block::NewIterator\<close> of table/block.cc. Its test of \<^verbatim>\<open>size_\<close> is commented out
  there, so the first thing it does is \<^verbatim>\<open>NumRestarts()\<close>.
\<close>

definition NewIterator :: "(byte list \<Rightarrow> 32 word) \<Rightarrow> bool \<Rightarrow> Block \<Rightarrow> fault + Iterator" where
  "NewIterator dec ndebug b =
     (case NumRestarts dec ndebug (blk_data b) (blk_size b) of
        Inl f \<Rightarrow> Inl f
      | Inr num_restarts \<Rightarrow>
          if \<not> ndebug \<and> \<not> unat num_restarts \<le> 64 * 1024 * 1024 then Inl AssertFailed
          else if num_restarts = 0 then Inr EmptyIterator
          else Inr (Iter (blk_data b) (restart_offset b) num_restarts))"

text \<open>
  The other revision of block.cc in the repository (the one whose header names the
  TimberSaw authors), with \<^verbatim>\<open>Block::Block\<close> at lines 18 to 40 and
  \<^verbatim>\<open>Block::NewIterator\<close> at lines 67 to 77: no assertion in the constructor, and
  \<^verbatim>\<open>NewIterator\<close> tests \<^verbatim>\<open>size_\<close> before it reads the restart count.
  \<^verbatim>\<open>NumRestarts\<close> is the same in both.
\<close>

definition Block_ctor_rev0 ::
  "(byte list \<Rightarrow> 32 word) \<Rightarrow> bool \<Rightarrow> byte list \<Rightarrow> BlockType \<Rightarrow> fault + Block" where
  "Block_ctor_rev0 dec ndebug contents type =
     (let b = \<lparr>blk_data = contents, blk_size = length contents, restart_offset = None,
               blk_type = type\<rparr>
      in if blk_size b < 4 then Inr (b\<lparr>blk_size := 0\<rparr>)
         else
           (let max_restarts_allowed = (blk_size b - 4) div 4
            in case NumRestarts dec ndebug (blk_data b) (blk_size b) of
                 Inl f \<Rightarrow> Inl f
               | Inr n \<Rightarrow>
                   if unat n > max_restarts_allowed
                   then Inr (b\<lparr>blk_size := 0\<rparr>)
                   else Inr (b\<lparr>restart_offset :=
                               Some (ucast ((of_nat (blk_size b) :: 64 word)
                                              - ucast (1 + n) * 4))\<rparr>)))"

definition NewIterator_rev0 :: "(byte list \<Rightarrow> 32 word) \<Rightarrow> bool \<Rightarrow> Block \<Rightarrow> fault + Iterator" where
  "NewIterator_rev0 dec ndebug b =
     (if blk_size b < 4 then Inr (ErrorIterator (Corruption ''bad block contents''))
      else case NumRestarts dec ndebug (blk_data b) (blk_size b) of
             Inl f \<Rightarrow> Inl f
           | Inr num_restarts \<Rightarrow>
               if num_restarts = 0 then Inr EmptyIterator
               else Inr (Iter (blk_data b) (restart_offset b) num_restarts))"


section \<open>MemTable\<close>

type_synonym SequenceNumber = "64 word"
type_synonym Slice = string

datatype ValueType = kTypeDeletion | kTypeValue

record Entry =
  e_key :: Slice
  e_seq :: SequenceNumber
  e_type :: ValueType
  e_value :: Slice

text \<open>
  Modelled from the spec: memtable.h and memtable.cc are not among the sources. The flush
  state is one of \<open>Open\<close>, \<open>FlushRequested\<close>, \<open>FlushScheduled\<close>, \<open>Flushed\<close>; the code names
  the second and third \<^verbatim>\<open>FLUSH_REQUESTED\<close> and \<^verbatim>\<open>FLUSH_SCHEDULED\<close>.
\<close>

datatype FlushStateEnum = FLUSH_NOT_REQUESTED | FLUSH_REQUESTED | FLUSH_SCHEDULED | FLUSHED

text \<open>
  The fields of a MemTable that db\_impl.cc reads and writes: the window
  (\<^verbatim>\<open>GetFirstseq\<close>, \<^verbatim>\<open>Getlargest_seq_supposed\<close>), the count of applied kvs
  (\<^verbatim>\<open>Get_kv_num\<close>; a count of inserts, kept as a natural number), the public flag
  \<^verbatim>\<open>able_to_flush\<close>, the flush state and the ordered contents.
\<close>

record MemTable =
  first_seq :: SequenceNumber
  largest_seq_supposed :: SequenceNumber
  kv_num :: nat
  able_to_flush :: bool
  flush_state :: FlushStateEnum
  table :: "Entry list"

text \<open>
  Modelled from the spec: \<^verbatim>\<open>new MemTable(comparator)\<close> is an empty table in state
  \<open>Open\<close> with no kv applied. Its window is set by the caller.
\<close>

definition new_MemTable :: MemTable where
  "new_MemTable =
     \<lparr>first_seq = 0, largest_seq_supposed = 0, kv_num = 0, able_to_flush = False,
      flush_state = FLUSH_NOT_REQUESTED, table = []\<rparr>"

definition SetFirstSeq :: "SequenceNumber \<Rightarrow> MemTable \<Rightarrow> MemTable" where
  "SetFirstSeq v t = t\<lparr>first_seq := v\<rparr>"

definition SetLargestSeq :: "SequenceNumber \<Rightarrow> MemTable \<Rightarrow> MemTable" where
  "SetLargestSeq v t = t\<lparr>largest_seq_supposed := v\<rparr>"

definition SetFlushState :: "FlushStateEnum \<Rightarrow> MemTable \<Rightarrow> MemTable" where
  "SetFlushState f t = t\<lparr>flush_state := f\<rparr>"

definition CheckFlushScheduled :: "MemTable \<Rightarrow> bool" where
  "CheckFlushScheduled t = (flush_state t = FLUSH_SCHEDULED)"

text \<open>
  The test that \<^verbatim>\<open>PickupTableToWrite\<close> and \<^verbatim>\<open>Write\<close> spell out:
  \<^verbatim>\<open>seq_num >= GetFirstseq() && seq_num <= Getlargest_seq_supposed()\<close>, on unsigned 64-bit
  numbers.
\<close>

definition in_window :: "MemTable \<Rightarrow> SequenceNumber \<Rightarrow> bool" where
  "in_window t seq_num = (first_seq t \<le> seq_num \<and> seq_num \<le> largest_seq_supposed t)"

text \<open>
  Modelled from the spec: \<^verbatim>\<open>increase_kv_num(n)\<close> adds \<open>n\<close> to the count of applied kvs,
  and \<^verbatim>\<open>able_to_flush\<close> is true iff that count equals the window size
  \<^verbatim>\<open>MEMTABLE_SEQ_SIZE\<close> (the parameter \<open>M\<close> throughout).
\<close>

definition increase_kv_num :: "SequenceNumber \<Rightarrow> nat \<Rightarrow> MemTable \<Rightarrow> MemTable" where
  "increase_kv_num M n t =
     t\<lparr>kv_num := kv_num t + n, able_to_flush := (kv_num t + n = unat M)\<rparr>"

text \<open>
  Modelled from the spec: internal keys are ordered by ascending user key, then by
  descending sequence; \<^verbatim>\<open>MemTable::Add\<close> inserts an entry at its place in that order, and
  \<^verbatim>\<open>MemTable::Get(key, snapshot)\<close> returns the first entry at the user key whose sequence
  is at most the snapshot: its value, or NotFound for a deletion; \<open>None\<close> when the table
  has no such entry.
\<close>

definition icmp_less :: "Entry \<Rightarrow> Entry \<Rightarrow> bool" where
  "icmp_less a b = (e_key a < e_key b \<or> (e_key a = e_key b \<and> e_seq b < e_seq a))"

fun skiplist_insert :: "Entry \<Rightarrow> Entry list \<Rightarrow> Entry list" where
  "skiplist_insert e [] = [e]"
| "skiplist_insert e (x # xs) =
     (if icmp_less e x then e # x # xs else x # skiplist_insert e xs)"

definition MemTable_Add :: "SequenceNumber \<Rightarrow> ValueType \<Rightarrow> Slice \<Rightarrow> Slice \<Rightarrow> MemTable \<Rightarrow> MemTable" where
  "MemTable_Add s ty k v t =
     t\<lparr>table := skiplist_insert \<lparr>e_key = k, e_seq = s, e_type = ty, e_value = v\<rparr> (table t)\<rparr>"

definition entries_Get :: "Slice \<Rightarrow> SequenceNumber \<Rightarrow> Entry list \<Rightarrow> (Status \<times> Slice) option" where
  "entries_Get k snapshot es =
     (case dropWhile (\<lambda>x. e_key x < k \<or> (e_key x = k \<and> snapshot < e_seq x)) es of
        [] \<Rightarrow> None
      | x # _ \<Rightarrow>
          if e_key x = k
          then (case e_type x of
                  kTypeValue \<Rightarrow> Some (OK, e_value x)
                | kTypeDeletion \<Rightarrow> Some (NotFound [], []))
          else None)"

definition MemTable_Get :: "Slice \<Rightarrow> SequenceNumber \<Rightarrow> MemTable \<Rightarrow> (Status \<times> Slice) option" where
  "MemTable_Get k snapshot t = entries_Get k snapshot (table t)"

section \<open>Write batches\<close>

datatype Op = Put Slice Slice | Delete Slice

type_synonym WriteBatch = "Op list"

text \<open>
  Modelled from the spec: \<^verbatim>\<open>WriteBatchInternal::InsertInto\<close> (write\_batch.cc is not among
  the sources) adds the operations of the batch to the table, the first with the
  sequence of the batch and each next one with the following sequence.
\<close>

fun InsertInto :: "WriteBatch \<Rightarrow> SequenceNumber \<Rightarrow> MemTable \<Rightarrow> MemTable" where
  "InsertInto [] s t = t"
| "InsertInto (Put k v # ops) s t = InsertInto ops (s + 1) (MemTable_Add s kTypeValue k v t)"
| "InsertInto (Delete k # ops) s t = InsertInto ops (s + 1) (MemTable_Add s kTypeDeletion k [] t)"


section \<open>DBImpl (db\_impl.cc)\<close>

text \<open>
  The state of the engine. MemTables live in a store: \<open>tables\<close> maps an address to the
  table there, and \<open>n_tables\<close> is the next free address, so that \<^verbatim>\<open>new MemTable\<close> takes
  address \<open>n_tables\<close>. A released table stays in the store. The atomic pointers
  \<^verbatim>\<open>mem_\<close> and \<^verbatim>\<open>imm_\<close> are \<open>mem\<close> and \<open>imm\<close>, \<open>None\<close> for \<^verbatim>\<open>nullptr\<close>; the other fields
  drop the trailing underscore too. \<open>manual_compaction\<close> says that
  \<^verbatim>\<open>manual_compaction_\<close> is not null.

  Of the VersionSet (version\_set.cc is not among the sources) the state keeps the sequence
  counter \<open>last_sequence\<close>, the answer \<open>needs_compaction\<close> of \<^verbatim>\<open>NeedsCompaction()\<close>, and
  \<open>versions\<close>, the Versions published so far, the current one first; a Version is the
  list of its table files, the newest first, and a file is the sorted entries it holds.
  \<open>scheduled\<close> counts the calls of \<^verbatim>\<open>env_->Schedule(&DBImpl::BGWork, this)\<close>.
\<close>

type_synonym Version = "Entry list list"

record DBImpl =
  tables :: "nat \<Rightarrow> MemTable"
  n_tables :: nat
  mem :: "nat option"
  imm :: "nat option"
  has_imm :: bool
  bg_error :: Status
  shutting_down :: bool
  manual_compaction :: bool
  needs_compaction :: bool
  last_sequence :: SequenceNumber
  versions :: "Version list"
  scheduled :: nat

text \<open>\<^verbatim>\<open>DBImpl::RecordBackgroundError\<close>, lines 723 to 729.\<close>

definition RecordBackgroundError :: "Status \<Rightarrow> DBImpl \<Rightarrow> DBImpl" where
  "RecordBackgroundError st s = (if ok (bg_error s) then s\<lparr>bg_error := st\<rparr> else s)"

text \<open>\<^verbatim>\<open>DBImpl::MaybeScheduleCompaction\<close>, lines 731 to 746.\<close>

definition MaybeScheduleCompaction :: "DBImpl \<Rightarrow> DBImpl" where
  "MaybeScheduleCompaction s =
     (if shutting_down s then s
      else if \<not> ok (bg_error s) then s
      else if imm s = None \<and> \<not> manual_compaction s \<and> \<not> needs_compaction s then s
      else s\<lparr>scheduled := scheduled s + 1\<rparr>)"

subsection \<open>The write path\<close>

text \<open>
  The second loop of \<^verbatim>\<open>PickupTableToWrite\<close> (\<^verbatim>\<open>while(true)\<close>, lines 1544 to 1559), from
  the table \<open>mem_r\<close>. Run on its own it can only return, fail, or repeat for ever: the
  value \<open>None\<close> is the thread that never leaves the loop.
\<close>

partial_function (option) PickupTableToWrite_search ::
  "SequenceNumber \<Rightarrow> bool \<Rightarrow> DBImpl \<Rightarrow> SequenceNumber \<Rightarrow> nat \<Rightarrow> (fault + nat) option" where
  "PickupTableToWrite_search M ndebug s seq_num mem_r =
     (if in_window (tables s mem_r) seq_num then Some (Inr mem_r)
      else
        (case imm s of
           None \<Rightarrow> Some (Inl (if ndebug then NullDeref else AssertFailed))
         | Some i \<Rightarrow>
             if \<not> ndebug \<and> \<not> M - of_nat (kv_num (tables s i)) \<le> 4 then Some (Inl AssertFailed)
             else if in_window (tables s i) seq_num then Some (Inr i)
             else PickupTableToWrite_search M ndebug s seq_num i))"

text \<open>
  The first loop (\<^verbatim>\<open>while(seq_num > mem_r->Getlargest_seq_supposed())\<close>, lines 1488 to
  1542) followed by the second. \<^verbatim>\<open>Memtable_full_cv.Wait()\<close> returns to the top of the loop
  with \<^verbatim>\<open>mem_r = mem_.load()\<close>; a thread that waits for ever is \<open>None\<close>. The
  compare-and-swap is written out, with both branches. The parameter \<^verbatim>\<open>force\<close> is only
  assigned, never read, and is left out; \<^verbatim>\<open>versions_->PrevLogNumber()\<close> is 0 throughout.
  Reference counts and the statistics counters are not part of the state.
\<close>

partial_function (option) PickupTableToWrite_loop ::
  "SequenceNumber \<Rightarrow> bool \<Rightarrow> DBImpl \<Rightarrow> SequenceNumber \<Rightarrow> nat \<Rightarrow>
     (fault + (Status \<times> nat \<times> DBImpl)) option" where
  "PickupTableToWrite_loop M ndebug s seq_num mem_r =
     (if largest_seq_supposed (tables s mem_r) < seq_num then
        (if imm s \<noteq> None then
           (if \<not> ndebug \<and> \<not> first_seq (tables s mem_r) < seq_num then Some (Inl AssertFailed)
            else
              (case mem s of
                 None \<Rightarrow> Some (Inl NullDeref)
               | Some m \<Rightarrow> PickupTableToWrite_loop M ndebug s seq_num m))
         else
           (let temp_mem = n_tables s;
                last_mem_seq = largest_seq_supposed (tables s mem_r);
                t = new_MemTable;
                t = SetFirstSeq (last_mem_seq + 1) t;
                t = SetLargestSeq (last_mem_seq + M) t;
                s1 = s\<lparr>tables := (tables s)(temp_mem := t), n_tables := Suc (n_tables s)\<rparr>;
                s2 = s1\<lparr>tables := (tables s1)(mem_r := SetFlushState FLUSH_REQUESTED (tables s1 mem_r))\<rparr>
            in if mem s2 = Some mem_r then
                 (let s3 = s2\<lparr>mem := Some temp_mem, has_imm := True\<rparr>
                  in if \<not> ndebug \<and> imm s3 \<noteq> None then Some (Inl AssertFailed)
                     else Some (Inr (OK, temp_mem, MaybeScheduleCompaction (s3\<lparr>imm := Some mem_r\<rparr>))))
               else
                 (case mem s2 of
                    None \<Rightarrow> Some (Inl NullDeref)
                  | Some m \<Rightarrow> PickupTableToWrite_loop M ndebug s2 seq_num m)))
      else
        (case PickupTableToWrite_search M ndebug s seq_num mem_r of
           None \<Rightarrow> None
         | Some (Inl f) \<Rightarrow> Some (Inl f)
         | Some (Inr p) \<Rightarrow> Some (Inr (OK, p, s))))"

text \<open>
  \<^verbatim>\<open>DBImpl::PickupTableToWrite(force, seq_num, mem_r)\<close>, lines 1483 to 1560: the status,
  the table chosen for the writer, and the new state.
\<close>

definition PickupTableToWrite ::
  "SequenceNumber \<Rightarrow> bool \<Rightarrow> DBImpl \<Rightarrow> SequenceNumber \<Rightarrow> (fault + (Status \<times> nat \<times> DBImpl)) option" where
  "PickupTableToWrite M ndebug s seq_num =
     (case mem s of
        None \<Rightarrow> Some (Inl NullDeref)
      | Some m \<Rightarrow> PickupTableToWrite_loop M ndebug s seq_num m)"

text \<open>
  Modelled from the spec: \<^verbatim>\<open>VersionSet::AssignSequnceNumbers(n)\<close> is the sequence
  allocator's \<open>reserve(n)\<close>, an atomic fetch-and-add that returns the first sequence of a
  range of \<open>n\<close>.
\<close>

definition AssignSequnceNumbers :: "nat \<Rightarrow> DBImpl \<Rightarrow> SequenceNumber \<times> DBImpl" where
  "AssignSequnceNumbers n s = (last_sequence s, s\<lparr>last_sequence := last_sequence s + of_nat n\<rparr>)"

text \<open>
  \<^verbatim>\<open>DBImpl::Write\<close>, lines 1347 to 1401, in two parts, since other threads run between
  the reservation of the sequence and the choice of the table. \<open>Write_apply\<close> is the
  part from \<^verbatim>\<open>PickupTableToWrite\<close> on, for a writer that holds \<open>sequence\<close>. The batch is
  never null here, as in \<^verbatim>\<open>DB::Put\<close> and \<^verbatim>\<open>DB::Delete\<close>, and the insertion of a
  well-formed batch answers OK.
\<close>

definition Write_apply ::
  "SequenceNumber \<Rightarrow> bool \<Rightarrow> DBImpl \<Rightarrow> SequenceNumber \<Rightarrow> WriteBatch \<Rightarrow> (fault + (Status \<times> DBImpl)) option" where
  "Write_apply M ndebug s sequence updates =
     (case PickupTableToWrite M ndebug s sequence of
        None \<Rightarrow> None
      | Some (Inl f) \<Rightarrow> Some (Inl f)
      | Some (Inr (status, m, s1)) \<Rightarrow>
          if ok status then
            (if \<not> ndebug \<and> \<not> (sequence \<le> largest_seq_supposed (tables s1 m)
                               \<and> first_seq (tables s1 m) \<le> sequence)
             then Some (Inl AssertFailed)
             else
               (let t = InsertInto updates sequence (tables s1 m);
                    t = increase_kv_num M (length updates) t
                in Some (Inr (OK, s1\<lparr>tables := (tables s1)(m := t)\<rparr>))))
          else (if ndebug then Some (Inr (status, s1)) else Some (Inl AssertFailed)))"

definition Write ::
  "SequenceNumber \<Rightarrow> bool \<Rightarrow> DBImpl \<Rightarrow> WriteBatch \<Rightarrow> (fault + (Status \<times> DBImpl)) option" where
  "Write M ndebug s updates =
     (let kv = length updates
      in if \<not> ndebug \<and> kv \<noteq> 1 then Some (Inl AssertFailed)
         else (case AssignSequnceNumbers kv s of
                 (sequence, s1) \<Rightarrow> Write_apply M ndebug s1 sequence updates))"


definition DB_Delete ::
  "SequenceNumber \<Rightarrow> bool \<Rightarrow> DBImpl \<Rightarrow> Slice \<Rightarrow> (fault + (Status \<times> DBImpl)) option" where
  "DB_Delete M ndebug s k = Write M ndebug s [Delete k]"


subsection \<open>The read path\<close>

definition current :: "DBImpl \<Rightarrow> Version" where
  "current s = (case versions s of [] \<Rightarrow> [] | v # _ \<Rightarrow> v)"

text \<open>
  Modelled from the spec: \<^verbatim>\<open>Version::Get\<close> (version\_set.cc is not among the sources)
  looks the key up in the files of the Version, the newest first, and answers NotFound
  when no file holds it.
\<close>

fun Version_Get :: "Slice \<Rightarrow> SequenceNumber \<Rightarrow> Version \<Rightarrow> Status \<times> Slice" where
  "Version_Get k snapshot [] = (NotFound [], [])"
| "Version_Get k snapshot (f # fs) =
     (case entries_Get k snapshot f of Some r \<Rightarrow> r | None \<Rightarrow> Version_Get k snapshot fs)"

text \<open>
  \<^verbatim>\<open>DBImpl::Get\<close>, lines 1187 to 1232. \<open>snapshot_opt\<close> is \<^verbatim>\<open>options.snapshot\<close>;
  \<open>stats_update\<close> is the answer of \<^verbatim>\<open>current->UpdateStats(stats)\<close>, asked only when the
  Version was read.
\<close>

definition Get ::
  "DBImpl \<Rightarrow> SequenceNumber option \<Rightarrow> Slice \<Rightarrow> bool \<Rightarrow> fault + ((Status \<times> Slice) \<times> DBImpl)" where
  "Get s snapshot_opt key stats_update =
     (let snapshot = (case snapshot_opt of Some q \<Rightarrow> q | None \<Rightarrow> last_sequence s)
      in case mem s of
           None \<Rightarrow> Inl NullDeref
         | Some m \<Rightarrow>
             (case MemTable_Get key snapshot (tables s m) of
                Some r \<Rightarrow> Inr (r, s)
              | None \<Rightarrow>
                  (case (case imm s of None \<Rightarrow> None
                         | Some i \<Rightarrow> MemTable_Get key snapshot (tables s i)) of
                     Some r \<Rightarrow> Inr (r, s)
                   | None \<Rightarrow>
                       Inr (Version_Get key snapshot (current s),
                            if stats_update then MaybeScheduleCompaction s else s))))"

subsection \<open>The flush\<close>

text \<open>
  The wait of \<^verbatim>\<open>CompactMemTable\<close> for \<^verbatim>\<open>able_to_flush\<close> (lines 604 to 613), with its
  counter. Nothing in the loop sets the flag: a worker that runs alone spins for ever,
  the value \<open>None\<close>.
\<close>

partial_function (option) await_able_to_flush :: "MemTable \<Rightarrow> nat \<Rightarrow> nat option" where
  "await_able_to_flush t counter =
     (if \<not> able_to_flush t
      then await_able_to_flush t (if counter + 1 = 10 then 0 else counter + 1)
      else Some counter)"

text \<open>
  \<^verbatim>\<open>DBImpl::WriteLevel0Table\<close>, lines 548 to 590: the status of \<^verbatim>\<open>BuildTable\<close> (the
  parameter \<open>build_status\<close>; builder.cc is not among the sources) and the files the edit
  adds: the contents of the table when the build succeeded and the file is not empty.
\<close>

definition WriteLevel0Table :: "Status \<Rightarrow> MemTable \<Rightarrow> Status \<times> Entry list list" where
  "WriteLevel0Table build_status t =
     (build_status, if ok build_status \<and> table t \<noteq> [] then [table t] else [])"

text \<open>
  Modelled from the spec: \<^verbatim>\<open>VersionSet::LogAndApply(edit)\<close> builds the new Version from
  the current one and the edit and publishes it; \<open>apply_status\<close> is the status of the
  manifest write, and a failed write publishes nothing.
\<close>

definition LogAndApply :: "Status \<Rightarrow> Entry list list \<Rightarrow> DBImpl \<Rightarrow> Status \<times> DBImpl" where
  "LogAndApply apply_status added s =
     (if ok apply_status then (OK, s\<lparr>versions := (added @ current s) # versions s\<rparr>)
      else (apply_status, s))"

text \<open>\<^verbatim>\<open>DBImpl::CompactMemTable\<close>, lines 592 to 649.\<close>

definition CompactMemTable :: "bool \<Rightarrow> Status \<Rightarrow> Status \<Rightarrow> DBImpl \<Rightarrow> (fault + DBImpl) option" where
  "CompactMemTable ndebug build_status apply_status s =
     (case imm s of
        None \<Rightarrow> Some (Inl (if ndebug then NullDeref else AssertFailed))
      | Some i \<Rightarrow>
          if \<not> ndebug \<and> CheckFlushScheduled (tables s i) then Some (Inl AssertFailed)
          else
            (case await_able_to_flush (tables s i) 0 of
               None \<Rightarrow> None
             | Some _ \<Rightarrow>
                 (let s1 = s\<lparr>tables := (tables s)(i := SetFlushState FLUSH_SCHEDULED (tables s i))\<rparr>;
                      (st, added) = WriteLevel0Table build_status (tables s1 i);
                      st = (if ok st \<and> shutting_down s1
                            then IOError ''Deleting DB during memtable compaction'' else st);
                      (st, s2) = (if ok st then LogAndApply apply_status added s1 else (st, s1))
                  in if ok st then Some (Inr (s2\<lparr>imm := None, has_imm := False\<rparr>))
                     else Some (Inr (RecordBackgroundError st s2)))))"

subsection \<open>Open\<close>

text \<open>
  The state that the constructor \<^verbatim>\<open>DBImpl::DBImpl\<close> builds (lines 167 to 192): no
  MemTable, no error.
\<close>

definition DBImpl_ctor :: DBImpl where
  "DBImpl_ctor =
     \<lparr>tables = (\<lambda>_. new_MemTable), n_tables = 0, mem = None, imm = None, has_imm = False,
      bg_error = OK, shutting_down = False, manual_compaction = False,
      needs_compaction = False, last_sequence = 0, versions = [], scheduled = 0\<rparr>"

text \<open>
  \<^verbatim>\<open>DB::Open\<close>, lines 1801 to 1845. \<^verbatim>\<open>Recover\<close> works on files; its outcome is a
  parameter: the status \<open>recover_status\<close>, the flag \<open>save_manifest\<close>, and the state \<open>r\<close> it
  leaves (for a fresh database \<open>mem r = None\<close>). \<open>log_status\<close> is the status of
  \<^verbatim>\<open>NewWritableFile\<close> and \<open>apply_status\<close> that of the manifest write; the edit of the
  recovery is taken to add no file. The result is the status and \<^verbatim>\<open>*dbptr\<close>.
\<close>

definition Open ::
  "SequenceNumber \<Rightarrow> bool \<Rightarrow> Status \<Rightarrow> bool \<Rightarrow> DBImpl \<Rightarrow> Status \<Rightarrow> Status \<Rightarrow>
     fault + (Status \<times> DBImpl option)" where
  "Open M ndebug recover_status save_manifest r log_status apply_status =
     (let impl = r;
          s = recover_status;
          (s, impl) =
            (if ok s \<and> mem impl = None then
               (let s = log_status
                in if ok s then
                     (let p = n_tables impl;
                          t = new_MemTable;
                          t = SetFirstSeq 0 t;
                          t = SetLargestSeq (M - 1) t
                      in (s, impl\<lparr>tables := (tables impl)(p := t), n_tables := Suc p,
                                   mem := Some p\<rparr>))
                   else (s, impl))
             else (s, impl));
          (s, impl) = (if ok s \<and> save_manifest then LogAndApply apply_status [] impl else (s, impl));
          impl = (if ok s then MaybeScheduleCompaction impl else impl)
      in if ok s then
           (if \<not> ndebug \<and> mem impl = None then Inl AssertFailed else Inr (s, Some impl))
         else Inr (s, None))"


subsection \<open>Executions\<close>

text \<open>
  The state after the compare-and-swap of \<^verbatim>\<open>PickupTableToWrite\<close> has succeeded and
  \<^verbatim>\<open>imm_\<close> is stored: the new table covers the window after that of \<open>m\<close>, \<open>m\<close> is marked
  \<^verbatim>\<open>FLUSH_REQUESTED\<close> and becomes the immutable table.
\<close>

definition rotate :: "SequenceNumber \<Rightarrow> nat \<Rightarrow> DBImpl \<Rightarrow> DBImpl" where
  "rotate M m s =
     (let t = new_MemTable\<lparr>first_seq := largest_seq_supposed (tables s m) + 1,
                            largest_seq_supposed := largest_seq_supposed (tables s m) + M\<rparr>;
          s1 = s\<lparr>tables := (tables s)(n_tables s := t), n_tables := Suc (n_tables s)\<rparr>;
          s2 = s1\<lparr>tables := (tables s1)(m := (tables s1 m)\<lparr>flush_state := FLUSH_REQUESTED\<rparr>)\<rparr>
      in MaybeScheduleCompaction (s2\<lparr>mem := Some (n_tables s), has_imm := True, imm := Some m\<rparr>))"

text \<open>
  The status that \<^verbatim>\<open>CompactMemTable\<close> hands to \<^verbatim>\<open>RecordBackgroundError\<close> when the flush
  does not succeed: the failure of the build, or the shutdown seen after a build that
  succeeded, or the failure of the manifest write.
\<close>

definition flush_failed :: "Status \<Rightarrow> Status \<Rightarrow> DBImpl \<Rightarrow> Status" where
  "flush_failed build_status apply_status s =
     (if \<not> ok build_status then build_status
      else if shutting_down s then IOError ''Deleting DB during memtable compaction''
      else apply_status)"

text \<open>
  The states of an engine opened on a fresh database. Calls of different threads
  interleave at the grain of these steps: a writer reserves its sequence
  (\<open>reach_Assign\<close>) and later, after any number of steps of other threads, chooses its
  table and inserts (\<open>reach_Write_apply\<close>, for whatever sequence it holds); the flush
  worker runs \<^verbatim>\<open>CompactMemTable\<close> with whatever the builder and the manifest answer; the
  flags of shutdown, manual compaction and of the version set change at any time. A call
  that fails an assertion or never returns leads nowhere.
\<close>

inductive reachable :: "SequenceNumber \<Rightarrow> bool \<Rightarrow> DBImpl \<Rightarrow> bool" for M ndebug where
  reach_Open:
    "Open M ndebug recover_status save_manifest
       (DBImpl_ctor\<lparr>last_sequence := q, versions := vs, needs_compaction := b\<rparr>)
       log_status apply_status = Inr (st, Some h) \<Longrightarrow> reachable M ndebug h"
| reach_Assign:
    "reachable M ndebug s \<Longrightarrow> reachable M ndebug (snd (AssignSequnceNumbers n s))"
| reach_Write_apply:
    "reachable M ndebug s \<Longrightarrow> Write_apply M ndebug s sequence updates = Some (Inr (st, s')) \<Longrightarrow>
     reachable M ndebug s'"
| reach_CompactMemTable:
    "reachable M ndebug s \<Longrightarrow>
     CompactMemTable ndebug build_status apply_status s = Some (Inr s') \<Longrightarrow>
     reachable M ndebug s'"
| reach_MaybeScheduleCompaction:
    "reachable M ndebug s \<Longrightarrow> reachable M ndebug (MaybeScheduleCompaction s)"
| reach_shutting_down:
    "reachable M ndebug s \<Longrightarrow> reachable M ndebug (s\<lparr>shutting_down := True\<rparr>)"
| reach_manual_compaction:
    "reachable M ndebug s \<Longrightarrow> reachable M ndebug (s\<lparr>manual_compaction := b\<rparr>)"
| reach_needs_compaction:
    "reachable M ndebug s \<Longrightarrow> reachable M ndebug (s\<lparr>needs_compaction := b\<rparr>)"

text \<open>
  A schedule is a list of calls, run one after the other; it yields a state when every
  call returns, and every write returns OK. \<open>db_open M\<close> is the handle that \<^verbatim>\<open>DB::Open\<close>
  returns on a fresh database when nothing fails.
\<close>

definition db_open :: "SequenceNumber \<Rightarrow> DBImpl" where
  "db_open M =
     DBImpl_ctor\<lparr>tables := (tables DBImpl_ctor)
                    (0 := new_MemTable\<lparr>first_seq := 0, largest_seq_supposed := M - 1\<rparr>),
                 n_tables := 1, mem := Some 0\<rparr>"

datatype call =
    Call_Assign nat
  | Call_Write_apply SequenceNumber WriteBatch
  | Call_Write WriteBatch
  | Call_CompactMemTable Status Status

fun run :: "SequenceNumber \<Rightarrow> bool \<Rightarrow> call list \<Rightarrow> DBImpl \<Rightarrow> DBImpl option" where
  "run M ndebug [] s = Some s"
| "run M ndebug (Call_Assign n # cs) s = run M ndebug cs (snd (AssignSequnceNumbers n s))"
| "run M ndebug (Call_Write_apply q b # cs) s =
     (case Write_apply M ndebug s q b of
        Some (Inr (st, s')) \<Rightarrow> if ok st then run M ndebug cs s' else None
      | _ \<Rightarrow> None)"
| "run M ndebug (Call_Write b # cs) s =
     (case Write M ndebug s b of
        Some (Inr (st, s')) \<Rightarrow> if ok st then run M ndebug cs s' else None
      | _ \<Rightarrow> None)"
| "run M ndebug (Call_CompactMemTable bs as # cs) s =
     (case CompactMemTable ndebug bs as s of
        Some (Inr s') \<Rightarrow> run M ndebug cs s'
      | _ \<Rightarrow> None)"

text \<open>
  Two invariants of the reachable states. \<open>window_chain\<close>: the store holds the MemTables
  in the order of their installation, \<^verbatim>\<open>mem_\<close> is the last, the first has the window of
  \<^verbatim>\<open>DB::Open\<close> and each next one follows its predecessor. \<open>flush_barrier\<close>: a table able
  to flush has all its kvs applied, and a table scheduled for flush has had them.
\<close>

definition window_chain :: "SequenceNumber \<Rightarrow> DBImpl \<Rightarrow> bool" where
  "window_chain M s =
     (0 < n_tables s \<and> mem s = Some (n_tables s - 1)
      \<and> first_seq (tables s 0) = 0 \<and> largest_seq_supposed (tables s 0) = M - 1
      \<and> (\<forall>i. Suc i < n_tables s \<longrightarrow>
            largest_seq_supposed (tables s i) \<noteq> - 1
            \<and> first_seq (tables s (Suc i)) = largest_seq_supposed (tables s i) + 1
            \<and> largest_seq_supposed (tables s (Suc i)) = largest_seq_supposed (tables s i) + M))"

definition flush_barrier :: "SequenceNumber \<Rightarrow> DBImpl \<Rightarrow> bool" where
  "flush_barrier M s =
     (\<forall>p. (able_to_flush (tables s p) \<longrightarrow> kv_num (tables s p) = unat M)
          \<and> flush_state (tables s p) \<noteq> FLUSHED
          \<and> (flush_state (tables s p) = FLUSH_SCHEDULED \<longrightarrow> unat M \<le> kv_num (tables s p)))"

section \<open>Properties of SanitizeOptions\<close>

lemma sint_ucast_small:
  assumes "uint (p::64 word) < 2 ^ 31"
  shows "sint (ucast p :: 32 word) = uint p"
proof -
  have "sint (ucast p :: 32 word) = signed_take_bit 31 (uint p)"
    by (simp add: signed_ucast_eq)
  also have "\<dots> = uint p"
  proof (rule signed_take_bit_int_eq_self)
    have "- (2 ^ 31) \<le> (0::int)" by simp
    also have "0 \<le> uint p" by simp
    finally show "- (2 ^ 31) \<le> uint p" .
    show "uint p < 2 ^ 31" by (rule assms)
  qed
  finally show ?thesis .
qed

lemma uint_scast_nonneg:
  assumes "0 \<le> sint (v::32 word)"
  shows "uint (scast v :: 64 word) = sint v"
proof -
  have "sint v < 2 ^ (32 - 1)" using sint_lt [of v] by simp
  also have "(2::int) ^ (32 - 1) \<le> 2 ^ 64" by (rule power_increasing) simp_all
  finally have lt: "sint v < 2 ^ 64" .
  have "uint (scast v :: 64 word) = take_bit 64 (sint v)"
    by (simp only: scast_eq uint_word_of_int_eq len_bit0 len_num1
          mult_numeral_left_semiring_numeral) simp
  also have "\<dots> = sint v"
    using assms lt by (rule take_bit_int_eq_self)
  finally show ?thesis .
qed

text \<open>
  On a \<^verbatim>\<open>size_t\<close> field whose value fits an \<^verbatim>\<open>int\<close>, \<^verbatim>\<open>ClipToRange\<close> is the clamp to
  the nearest bound.
\<close>

lemma ClipToRange_size_t:
  assumes p: "uint (p::64 word) < 2 ^ 31" and lo: "0 \<le> sint lo" and lh: "sint lo \<le> sint hi"
  shows "uint (ClipToRange p lo hi) = max (sint lo) (min (sint hi) (uint p))"
proof -
  have hi: "0 \<le> sint hi" using lo lh by simp
  have e1: "uint (scast hi :: 64 word) = sint hi" using hi by (rule uint_scast_nonneg)
  have e2: "uint (scast lo :: 64 word) = sint lo" using lo by (rule uint_scast_nonneg)
  have "sint hi < 2 ^ (32 - 1)" using sint_lt [of hi] by simp
  then have hi31: "uint (scast hi :: 64 word) < 2 ^ 31"
    by (simp add: e1)
  have c1: "sint (ucast (scast hi :: 64 word) :: 32 word) = sint hi"
    using hi31 by (simp only: sint_ucast_small e1)
  have c2: "sint (ucast p :: 32 word) = uint p" using p by (rule sint_ucast_small)
  show ?thesis
  proof (cases "sint hi < uint p")
    case True
    then have "ClipToRange p lo hi = (if sint hi < sint lo then scast lo else scast hi)"
      by (simp add: ClipToRange_def Let_def word_sless_alt c1 c2)
    with True lh show ?thesis by (simp add: e1)
  next
    case False
    then have "ClipToRange p lo hi = (if uint p < sint lo then scast lo else p)"
      by (simp add: ClipToRange_def Let_def word_sless_alt c2)
    with False lh show ?thesis by (simp add: e2)
  qed
qed

text \<open>On an \<^verbatim>\<open>int\<close> field the casts do nothing and \<^verbatim>\<open>ClipToRange\<close> is the clamp.\<close>

lemma ClipToRange_int:
  "sint lo \<le> sint hi \<Longrightarrow>
   sint (ClipToRange (p::32 word) lo hi) = max (sint lo) (min (sint hi) (sint p))"
  unfolding ClipToRange_def Let_def
  by (auto simp: word_sless_alt)

lemma SanitizeOptions_fields:
  "max_open_files (SanitizeOptions icmp ipolicy lg c src) =
     ClipToRange (max_open_files src) (64 + kNumNonTableCacheFiles) 50000"
  "write_buffer_size (SanitizeOptions icmp ipolicy lg c src) =
     ClipToRange (write_buffer_size src) (push_bit 10 64) (push_bit 30 1)"
  "max_file_size (SanitizeOptions icmp ipolicy lg c src) =
     ClipToRange (max_file_size src) (push_bit 20 1) (push_bit 30 1)"
  "block_size (SanitizeOptions icmp ipolicy lg c src) =
     ClipToRange (block_size src) (push_bit 10 1) (push_bit 20 4)"
  by (simp_all add: SanitizeOptions_def Let_def)

text \<open>
  \<^verbatim>\<open>max_open_files\<close> always ends in [74, 50000], clamped to the nearest bound; each size
  does so when the input is below \<open>2^31\<close>.
\<close>

lemma SanitizeOptions_max_open_files:
  "sint (max_open_files (SanitizeOptions icmp ipolicy lg c src)) =
     max 74 (min 50000 (sint (max_open_files src)))"
  by (simp add: SanitizeOptions_fields ClipToRange_int kNumNonTableCacheFiles_def)

lemma SanitizeOptions_sizes_below_2_31:
  "uint (write_buffer_size src) < 2 ^ 31 \<Longrightarrow>
     uint (write_buffer_size (SanitizeOptions icmp ipolicy lg c src)) =
       max 65536 (min 1073741824 (uint (write_buffer_size src)))"
  "uint (max_file_size src) < 2 ^ 31 \<Longrightarrow>
     uint (max_file_size (SanitizeOptions icmp ipolicy lg c src)) =
       max 1048576 (min 1073741824 (uint (max_file_size src)))"
  "uint (block_size src) < 2 ^ 31 \<Longrightarrow>
     uint (block_size (SanitizeOptions icmp ipolicy lg c src)) =
       max 1024 (min 4194304 (uint (block_size src)))"
  by (simp_all add: SanitizeOptions_fields ClipToRange_size_t)

text \<open>
  Claim C8. The sanitized \<^verbatim>\<open>write_buffer_size\<close> should lie in [64 KiB, 1 GiB]. The input
  \<open>2^32 + 65536\<close> is left as it is: the cast to \<^verbatim>\<open>int\<close> makes both comparisons see 65536.
  The result is above 1 GiB.
\<close>

theorem SanitizeOptions_write_buffer_size_not_clipped:
  "write_buffer_size
     (SanitizeOptions icmp ipolicy lg c (src\<lparr>write_buffer_size := 4295032832\<rparr>)) = 4295032832
   \<and> \<not> (4295032832 :: 64 word) \<le> push_bit 30 1"
  by (simp add: SanitizeOptions_fields ClipToRange_def word_sless_alt)

text \<open>
  An input of \<open>2^31\<close>, above the range, is negative as an \<^verbatim>\<open>int\<close> and ends at the lower
  bound, not the nearest one.
\<close>

lemma SanitizeOptions_write_buffer_size_far_bound:
  "write_buffer_size
     (SanitizeOptions icmp ipolicy lg c (src\<lparr>write_buffer_size := 2147483648\<rparr>)) = 65536"
  by (simp add: SanitizeOptions_fields ClipToRange_def word_sless_alt)

section \<open>Properties of Block\<close>

text \<open>
  Claim C10. For every block contents whose size is smaller than 4 bytes, or whose
  trailing restart count exceeds \<open>(size - 4) / 4\<close>, the Block constructor marks the block
  empty (\<^verbatim>\<open>size_ = 0\<close>) and \<^verbatim>\<open>NewIterator\<close> returns an error iterator that carries
  \<^verbatim>\<open>Status::Corruption("bad block contents")\<close>; for a well-formed block with zero
  restarts, \<^verbatim>\<open>NewIterator\<close> returns the empty iterator. This is the revision of block.cc
  with \<^verbatim>\<open>Block::Block\<close> at lines 18 to 40 and \<^verbatim>\<open>Block::NewIterator\<close> at lines 67 to
  77, in the debug and in the release build, for every decoder of the restart count.
\<close>

theorem Block_bad_contents_error_iterator:
  "(length contents < 4
    \<or> (4 \<le> length contents
        \<and> (length contents - 4) div 4
             < unat (dec (take 4 (drop (length contents - 4) contents))))
    \<longrightarrow> (\<exists>b. Block_ctor_rev0 dec ndebug contents type = Inr b \<and> blk_size b = 0
             \<and> NewIterator_rev0 dec ndebug b
                 = Inr (ErrorIterator (Corruption ''bad block contents''))))
   \<and> (4 \<le> length contents \<and> dec (take 4 (drop (length contents - 4) contents)) = 0
      \<longrightarrow> (\<exists>b. Block_ctor_rev0 dec ndebug contents type = Inr b
               \<and> blk_size b = length contents
               \<and> NewIterator_rev0 dec ndebug b = Inr EmptyIterator))"
  by (auto simp: Block_ctor_rev0_def NewIterator_rev0_def NumRestarts_def Let_def)

theorem Block_bad_contents_error_iterator_witness:
  "(\<exists>b. Block_ctor_rev0 DecodeFixed32 False [] DataBlock = Inr b \<and> blk_size b = 0
        \<and> NewIterator_rev0 DecodeFixed32 False b
            = Inr (ErrorIterator (Corruption ''bad block contents'')))
   \<and> (\<exists>b. Block_ctor_rev0 DecodeFixed32 True [5, 0, 0, 0] DataBlock = Inr b
          \<and> blk_size b = 0
          \<and> NewIterator_rev0 DecodeFixed32 True b
              = Inr (ErrorIterator (Corruption ''bad block contents'')))
   \<and> (\<exists>b. Block_ctor_rev0 DecodeFixed32 False [0, 0, 0, 0] DataBlock = Inr b
          \<and> blk_size b = length [0 :: byte, 0, 0, 0]
          \<and> NewIterator_rev0 DecodeFixed32 False b = Inr EmptyIterator)"
  using Block_bad_contents_error_iterator
          [where contents = "[]" and dec = DecodeFixed32 and ndebug = False
             and type = DataBlock]
        Block_bad_contents_error_iterator
          [where contents = "[5, 0, 0, 0]" and dec = DecodeFixed32 and ndebug = True
             and type = DataBlock]
        Block_bad_contents_error_iterator
          [where contents = "[0, 0, 0, 0]" and dec = DecodeFixed32 and ndebug = False
             and type = DataBlock]
  by (simp add: DecodeFixed32_def)

subsection \<open>The revision with the assertions\<close>

text \<open>
  In table/block.cc the test of \<^verbatim>\<open>size_\<close> in \<^verbatim>\<open>NewIterator\<close> is commented out, and the
  debug build stops in the constructor on a restart count that is too large. There
  \<^verbatim>\<open>NewIterator\<close> never returns an error iterator: on a block that carries the error
  marker it fails in \<^verbatim>\<open>NumRestarts()\<close>, on the assertion in a debug build and by reading
  before the buffer in a release build.
\<close>

lemma NewIterator_never_error:
  "NewIterator dec ndebug b \<noteq> Inr (ErrorIterator st)"
  by (auto simp: NewIterator_def split: sum.splits)

lemma NewIterator_marked_faults:
  "blk_size b < 4 \<Longrightarrow>
   NewIterator dec ndebug b = Inl (if ndebug then OutOfBounds else AssertFailed)"
  by (simp add: NewIterator_def NumRestarts_def)

lemma Block_ctor_short:
  "length contents < 4 \<Longrightarrow>
   Block_ctor dec ndebug contents type =
     Inr \<lparr>blk_data = contents, blk_size = 0, restart_offset = None, blk_type = type\<rparr>"
  by (simp add: Block_ctor_def)

lemma Block_ctor_too_many_restarts:
  "4 \<le> length contents \<Longrightarrow>
   (length contents - 4) div 4 < unat (dec (take 4 (drop (length contents - 4) contents))) \<Longrightarrow>
   ndebug \<or> type \<in> {IndexBlock, IndexBlock_Small, FilterBlock} \<or> length contents < 8192 \<Longrightarrow>
   Block_ctor dec ndebug contents type =
     (if ndebug
      then Inr \<lparr>blk_data = contents, blk_size = 0, restart_offset = None, blk_type = type\<rparr>
      else Inl AssertFailed)"
  by (auto simp: Block_ctor_def NumRestarts_def Let_def)

text \<open>A well-formed block with no restart gets the empty iterator there too.\<close>

lemma NewIterator_zero_restarts:
  assumes "4 \<le> length contents" "dec (take 4 (drop (length contents - 4) contents)) = 0"
    "ndebug \<or> type \<in> {IndexBlock, IndexBlock_Small, FilterBlock} \<or> length contents < 8192"
  shows "\<exists>b. Block_ctor dec ndebug contents type = Inr b \<and>
              NewIterator dec ndebug b = Inr EmptyIterator"
  using assms
  by (auto simp: Block_ctor_def NewIterator_def NumRestarts_def Let_def)

lemma NewIterator_empty_contents_faults:
  "Block_ctor dec ndebug [] DataBlock =
     Inr \<lparr>blk_data = [], blk_size = 0, restart_offset = None, blk_type = DataBlock\<rparr>
   \<and> NewIterator dec ndebug
        \<lparr>blk_data = [], blk_size = 0, restart_offset = None, blk_type = DataBlock\<rparr>
       = Inl (if ndebug then OutOfBounds else AssertFailed)"
  by (simp add: Block_ctor_def NewIterator_def NumRestarts_def)

section \<open>Properties of the scheduler and of Open\<close>

lemma scheduled_update_neq: "s\<lparr>scheduled := Suc (scheduled s)\<rparr> \<noteq> s"
proof
  assume "s\<lparr>scheduled := Suc (scheduled s)\<rparr> = s"
  then have "scheduled (s\<lparr>scheduled := Suc (scheduled s)\<rparr>) = scheduled s" by simp
  then show False by simp
qed

text \<open>
  Claim C6, as stated: \<^verbatim>\<open>MaybeScheduleCompaction\<close> is a no-op exactly when shutdown is
  requested, or an error is latched, or \<^verbatim>\<open>imm_\<close> is null and no manual compaction is
  pending. It is false in the state where only the version set asks for a compaction:
  the call enqueues work there.
\<close>

theorem MaybeScheduleCompaction_noop_counterexample:
  "\<not> (MaybeScheduleCompaction (DBImpl_ctor\<lparr>needs_compaction := True\<rparr>)
          = DBImpl_ctor\<lparr>needs_compaction := True\<rparr>
        \<longleftrightarrow> shutting_down (DBImpl_ctor\<lparr>needs_compaction := True\<rparr>)
            \<or> \<not> ok (bg_error (DBImpl_ctor\<lparr>needs_compaction := True\<rparr>))
            \<or> (imm (DBImpl_ctor\<lparr>needs_compaction := True\<rparr>) = None
                \<and> \<not> manual_compaction (DBImpl_ctor\<lparr>needs_compaction := True\<rparr>)))"
  using scheduled_update_neq [of "DBImpl_ctor\<lparr>needs_compaction := True\<rparr>"]
  by (simp add: MaybeScheduleCompaction_def DBImpl_ctor_def)

text \<open>
  Claim C6, amended: the call is a no-op exactly when shutdown is requested, or an error
  is latched, or \<^verbatim>\<open>imm_\<close> is null, no manual compaction is pending and the version set
  needs no compaction; in every other state it enqueues background work (one call of
  \<^verbatim>\<open>env_->Schedule\<close>) and changes nothing else. In a state where the call is a no-op,
  calling it again changes nothing either.
\<close>

theorem MaybeScheduleCompaction_noop_iff:
  "(MaybeScheduleCompaction s = s \<longleftrightarrow>
      shutting_down s \<or> \<not> ok (bg_error s)
      \<or> (imm s = None \<and> \<not> manual_compaction s \<and> \<not> needs_compaction s))
   \<and> (MaybeScheduleCompaction s \<noteq> s \<longrightarrow>
        MaybeScheduleCompaction s = s\<lparr>scheduled := scheduled s + 1\<rparr>)
   \<and> (MaybeScheduleCompaction s = s \<longrightarrow>
        MaybeScheduleCompaction (MaybeScheduleCompaction s) = s)"
  using scheduled_update_neq [of s]
  by (auto simp: MaybeScheduleCompaction_def)

theorem MaybeScheduleCompaction_noop_iff_witness:
  "MaybeScheduleCompaction (DBImpl_ctor\<lparr>needs_compaction := True\<rparr>)
     \<noteq> DBImpl_ctor\<lparr>needs_compaction := True\<rparr>
   \<and> MaybeScheduleCompaction (DBImpl_ctor\<lparr>needs_compaction := True\<rparr>)
       = DBImpl_ctor\<lparr>needs_compaction := True, scheduled := 1\<rparr>
   \<and> MaybeScheduleCompaction (DBImpl_ctor\<lparr>shutting_down := True\<rparr>)
       = DBImpl_ctor\<lparr>shutting_down := True\<rparr>
   \<and> MaybeScheduleCompaction (MaybeScheduleCompaction (DBImpl_ctor\<lparr>shutting_down := True\<rparr>))
       = DBImpl_ctor\<lparr>shutting_down := True\<rparr>"
  using MaybeScheduleCompaction_noop_iff [of "DBImpl_ctor\<lparr>needs_compaction := True\<rparr>"]
    MaybeScheduleCompaction_noop_iff [of "DBImpl_ctor\<lparr>shutting_down := True\<rparr>"]
  by (simp add: DBImpl_ctor_def)

text \<open>
  Nothing records that work has been enqueued: the assignment
  \<^verbatim>\<open>background_compaction_scheduled_ = true\<close> at line 743 is commented out and no branch
  reads the flag. A call in a state where work is enqueued therefore enqueues again,
  whatever is pending, although the comment at lines 733 and 734 expects the work to be
  triggered once.
\<close>

lemma MaybeScheduleCompaction_enqueues_again:
  assumes "\<not> shutting_down s" "ok (bg_error s)"
    "imm s \<noteq> None \<or> manual_compaction s \<or> needs_compaction s"
  shows "MaybeScheduleCompaction (MaybeScheduleCompaction s)
           = s\<lparr>scheduled := scheduled s + 2\<rparr>"
proof -
  define s1 where "s1 = s\<lparr>scheduled := scheduled s + 1\<rparr>"
  from assms have 1: "MaybeScheduleCompaction s = s1"
    unfolding MaybeScheduleCompaction_def s1_def by simp
  from assms have "\<not> shutting_down s1" "ok (bg_error s1)"
    "imm s1 \<noteq> None \<or> manual_compaction s1 \<or> needs_compaction s1"
    by (simp_all add: s1_def)
  then have "MaybeScheduleCompaction s1 = s1\<lparr>scheduled := scheduled s1 + 1\<rparr>"
    unfolding MaybeScheduleCompaction_def by simp
  also have "\<dots> = s\<lparr>scheduled := scheduled s + 2\<rparr>"
    by (simp add: s1_def)
  finally show ?thesis using 1 by simp
qed

text \<open>
  Claim C9. After a successful open in which recovery left no MemTable, the handle's
  \<^verbatim>\<open>mem_\<close> is not null and the window of its table is \<open>[0, MEMTABLE_SEQ_SIZE - 1]\<close>.
\<close>

theorem Open_fresh_window:
  assumes "Open M ndebug recover_status save_manifest r log_status apply_status
             = Inr (st, Some h)"
    and "mem r = None"
  shows "ok st \<and> (\<exists>p. mem h = Some p \<and> first_seq (tables h p) = 0
                      \<and> largest_seq_supposed (tables h p) = M - 1)"
  using assms
  by (auto simp: Open_def Let_def LogAndApply_def MaybeScheduleCompaction_def
        SetFirstSeq_def SetLargestSeq_def new_MemTable_def split: if_splits prod.splits)

theorem Open_fresh_window_witness:
  "Open 64 False OK False DBImpl_ctor OK OK
     = Inr (OK, Some (DBImpl_ctor\<lparr>tables := (tables DBImpl_ctor)
                        (0 := new_MemTable\<lparr>first_seq := 0, largest_seq_supposed := 63\<rparr>),
                      n_tables := 1, mem := Some 0\<rparr>))
   \<and> mem DBImpl_ctor = None
   \<and> ok OK
   \<and> (\<exists>p. mem (DBImpl_ctor\<lparr>tables := (tables DBImpl_ctor)
                        (0 := new_MemTable\<lparr>first_seq := 0, largest_seq_supposed := 63\<rparr>),
                      n_tables := 1, mem := Some 0\<rparr>) = Some p
          \<and> first_seq ((tables (DBImpl_ctor\<lparr>tables := (tables DBImpl_ctor)
                        (0 := new_MemTable\<lparr>first_seq := 0, largest_seq_supposed := 63\<rparr>),
                      n_tables := 1, mem := Some 0\<rparr>)) p) = 0
          \<and> largest_seq_supposed ((tables (DBImpl_ctor\<lparr>tables := (tables DBImpl_ctor)
                        (0 := new_MemTable\<lparr>first_seq := 0, largest_seq_supposed := 63\<rparr>),
                      n_tables := 1, mem := Some 0\<rparr>)) p) = 64 - 1)"
proof -
  have o: "Open 64 False OK False DBImpl_ctor OK OK
     = Inr (OK, Some (DBImpl_ctor\<lparr>tables := (tables DBImpl_ctor)
                        (0 := new_MemTable\<lparr>first_seq := 0, largest_seq_supposed := 63\<rparr>),
                      n_tables := 1, mem := Some 0\<rparr>))"
    by (simp add: Open_def Let_def MaybeScheduleCompaction_def DBImpl_ctor_def
          SetFirstSeq_def SetLargestSeq_def)
  have m: "mem DBImpl_ctor = None" by (simp add: DBImpl_ctor_def)
  from Open_fresh_window [OF o m] o m show ?thesis by simp
qed

section \<open>The write path and the flush, loop by loop\<close>

text \<open>
  A thread that runs the second loop of \<^verbatim>\<open>PickupTableToWrite\<close> alone leaves it at the
  first or second test, or never: once \<open>mem_r\<close> is the immutable table and the sequence is
  outside its window, every round is the same.
\<close>

lemma PickupTableToWrite_search_Some:
  assumes "PickupTableToWrite_search M nd s q m = Some r"
  shows "imm s = Some m \<longrightarrow> \<not> in_window (tables s m) q \<longrightarrow>
         \<not> (nd \<or> M - of_nat (kv_num (tables s m)) \<le> 4)"
  using assms
  by (rule PickupTableToWrite_search.raw_induct
        [where P = "\<lambda>M nd s q m r. imm s = Some m \<longrightarrow> \<not> in_window (tables s m) q \<longrightarrow>
                      \<not> (nd \<or> M - of_nat (kv_num (tables s m)) \<le> 4)", rotated])
     (fastforce split: if_splits option.splits)

lemma PickupTableToWrite_search_spins:
  assumes "imm s = Some i" "\<not> in_window (tables s i) q"
    "nd \<or> M - of_nat (kv_num (tables s i)) \<le> 4"
  shows "PickupTableToWrite_search M nd s q i = None"
proof (cases "PickupTableToWrite_search M nd s q i")
  case None then show ?thesis .
next
  case (Some r)
  from PickupTableToWrite_search_Some [OF Some] assms show ?thesis by blast
qed

lemma PickupTableToWrite_search_eq:
  "PickupTableToWrite_search M nd s q m =
     (if in_window (tables s m) q then Some (Inr m)
      else case imm s of
             None \<Rightarrow> Some (Inl (if nd then NullDeref else AssertFailed))
           | Some i \<Rightarrow>
               if \<not> nd \<and> \<not> M - of_nat (kv_num (tables s i)) \<le> 4 then Some (Inl AssertFailed)
               else if in_window (tables s i) q then Some (Inr i)
               else None)"
  by (subst PickupTableToWrite_search.simps)
     (auto split: option.splits simp: PickupTableToWrite_search_spins)

text \<open>The first loop: the compare-and-swap of a thread that runs alone succeeds.\<close>

lemma PickupTableToWrite_loop_rotate:
  assumes "largest_seq_supposed (tables s m) < q" "imm s = None" "mem s = Some m"
  shows "PickupTableToWrite_loop M nd s q m = Some (Inr (OK, n_tables s, rotate M m s))"
  using assms
  by (subst PickupTableToWrite_loop.simps)
     (simp add: Let_def SetFirstSeq_def SetLargestSeq_def SetFlushState_def rotate_def)

text \<open>While \<^verbatim>\<open>imm_\<close> is set, a writer beyond the window of \<^verbatim>\<open>mem_\<close> waits for ever.\<close>

lemma PickupTableToWrite_loop_Some:
  assumes "PickupTableToWrite_loop M nd s q m = Some r"
  shows "mem s = Some m \<longrightarrow> largest_seq_supposed (tables s m) < q \<longrightarrow> imm s \<noteq> None \<longrightarrow>
     r = Inl AssertFailed \<and> \<not> nd \<and> \<not> first_seq (tables s m) < q"
  using assms
  by (rule PickupTableToWrite_loop.raw_induct
        [where P = "\<lambda>M nd s q m r. mem s = Some m \<longrightarrow>
           largest_seq_supposed (tables s m) < q \<longrightarrow> imm s \<noteq> None \<longrightarrow>
           r = Inl AssertFailed \<and> \<not> nd \<and> \<not> first_seq (tables s m) < q", rotated])
     (fastforce split: if_splits option.splits)

lemma PickupTableToWrite_loop_waits:
  assumes "mem s = Some m" "largest_seq_supposed (tables s m) < q" "imm s \<noteq> None"
    "nd \<or> first_seq (tables s m) < q"
  shows "PickupTableToWrite_loop M nd s q m = None"
proof (cases "PickupTableToWrite_loop M nd s q m")
  case None then show ?thesis .
next
  case (Some r)
  from PickupTableToWrite_loop_Some [OF Some] assms show ?thesis by auto
qed

lemma PickupTableToWrite_loop_eq:
  assumes "mem s = Some m"
  shows "PickupTableToWrite_loop M nd s q m =
     (if largest_seq_supposed (tables s m) < q then
        (if imm s \<noteq> None then
           (if \<not> nd \<and> \<not> first_seq (tables s m) < q then Some (Inl AssertFailed) else None)
         else Some (Inr (OK, n_tables s, rotate M m s)))
      else
        (case PickupTableToWrite_search M nd s q m of
           None \<Rightarrow> None
         | Some (Inl f) \<Rightarrow> Some (Inl f)
         | Some (Inr p) \<Rightarrow> Some (Inr (OK, p, s))))"
proof (cases "largest_seq_supposed (tables s m) < q")
  case False
  then show ?thesis by (subst PickupTableToWrite_loop.simps) simp
next
  case True
  show ?thesis
  proof (cases "imm s = None")
    case True
    with \<open>largest_seq_supposed (tables s m) < q\<close> assms show ?thesis
      by (simp add: PickupTableToWrite_loop_rotate)
  next
    case False
    show ?thesis
    proof (cases "\<not> nd \<and> \<not> first_seq (tables s m) < q")
      case True
      with False \<open>largest_seq_supposed (tables s m) < q\<close> show ?thesis
        by (subst PickupTableToWrite_loop.simps) simp
    next
      case nw: False
      with False \<open>largest_seq_supposed (tables s m) < q\<close> assms show ?thesis
        by (simp add: PickupTableToWrite_loop_waits)
    qed
  qed
qed

text \<open>
  \<^verbatim>\<open>PickupTableToWrite\<close> without its loops: what a call that runs alone returns, and
  when it does not return (\<open>None\<close>).
\<close>

lemma PickupTableToWrite_eq:
  "PickupTableToWrite M nd s q =
     (case mem s of
        None \<Rightarrow> Some (Inl NullDeref)
      | Some m \<Rightarrow>
          if largest_seq_supposed (tables s m) < q then
            (if imm s \<noteq> None then
               (if \<not> nd \<and> \<not> first_seq (tables s m) < q then Some (Inl AssertFailed) else None)
             else Some (Inr (OK, n_tables s, rotate M m s)))
          else if in_window (tables s m) q then Some (Inr (OK, m, s))
          else
            (case imm s of
               None \<Rightarrow> Some (Inl (if nd then NullDeref else AssertFailed))
             | Some i \<Rightarrow>
                 if \<not> nd \<and> \<not> M - of_nat (kv_num (tables s i)) \<le> 4 then Some (Inl AssertFailed)
                 else if in_window (tables s i) q then Some (Inr (OK, i, s))
                 else None))"
  by (auto simp: PickupTableToWrite_def PickupTableToWrite_loop_eq PickupTableToWrite_search_eq
        split: option.splits)

lemma PickupTableToWrite_returns:
  assumes "PickupTableToWrite M nd s q = Some (Inr (st, p, s'))"
  shows "\<exists>m. mem s = Some m \<and> st = OK \<and>
     ((largest_seq_supposed (tables s m) < q \<and> imm s = None \<and> p = n_tables s
        \<and> s' = rotate M m s)
      \<or> (\<not> largest_seq_supposed (tables s m) < q \<and> s' = s \<and> in_window (tables s p) q
          \<and> (p = m \<or> imm s = Some p)))"
  using assms
  by (auto simp: PickupTableToWrite_eq split: option.splits if_splits)

lemma InsertInto_fields:
  "first_seq (InsertInto b q t) = first_seq t"
  "largest_seq_supposed (InsertInto b q t) = largest_seq_supposed t"
  "kv_num (InsertInto b q t) = kv_num t"
  "able_to_flush (InsertInto b q t) = able_to_flush t"
  "flush_state (InsertInto b q t) = flush_state t"
  by (induction b q t rule: InsertInto.induct) (simp_all add: MemTable_Add_def)

lemma Write_apply_returns:
  assumes "Write_apply M nd s q b = Some (Inr (st, s'))"
  shows "\<exists>p s1. PickupTableToWrite M nd s q = Some (Inr (OK, p, s1)) \<and> st = OK
           \<and> (nd \<or> in_window (tables s1 p) q)
           \<and> s' = s1\<lparr>tables := (tables s1)
                    (p := increase_kv_num M (length b) (InsertInto b q (tables s1 p)))\<rparr>"
proof -
  from assms obtain st1 p s1 where
    pk: "PickupTableToWrite M nd s q = Some (Inr (st1, p, s1))"
    by (auto simp: Write_apply_def split: option.splits sum.splits)
  from PickupTableToWrite_returns [OF pk] have "st1 = OK" by blast
  with assms pk show ?thesis
    by (auto simp: Write_apply_def Let_def in_window_def split: if_splits)
qed

text \<open>The wait of the flush worker ends iff the table is able to flush.\<close>

lemma await_able_to_flush_Some:
  assumes "await_able_to_flush t c = Some r" shows "able_to_flush t"
  using assms
  by (rule await_able_to_flush.raw_induct [where P = "\<lambda>t c r. able_to_flush t", rotated])
     (auto split: if_splits)

lemma await_able_to_flush_able: "able_to_flush t \<Longrightarrow> await_able_to_flush t c = Some c"
  by (subst await_able_to_flush.simps) simp

lemma await_able_to_flush_None: "\<not> able_to_flush t \<Longrightarrow> await_able_to_flush t c = None"
  using await_able_to_flush_Some by (cases "await_able_to_flush t c") auto

text \<open>\<^verbatim>\<open>CompactMemTable\<close> without its loop.\<close>

lemma CompactMemTable_eq:
  "CompactMemTable nd bs as s =
     (case imm s of
        None \<Rightarrow> Some (Inl (if nd then NullDeref else AssertFailed))
      | Some i \<Rightarrow>
          if \<not> nd \<and> flush_state (tables s i) = FLUSH_SCHEDULED then Some (Inl AssertFailed)
          else if \<not> able_to_flush (tables s i) then None
          else if ok bs \<and> \<not> shutting_down s \<and> ok as
          then Some (Inr (s\<lparr>tables := (tables s)
                               (i := (tables s i)\<lparr>flush_state := FLUSH_SCHEDULED\<rparr>),
                  versions := ((if table (tables s i) \<noteq> [] then [table (tables s i)] else [])
                                @ current s) # versions s,
                  imm := None, has_imm := False\<rparr>))
          else Some (Inr (RecordBackgroundError (flush_failed bs as s)
                  (s\<lparr>tables := (tables s)
                        (i := (tables s i)\<lparr>flush_state := FLUSH_SCHEDULED\<rparr>)\<rparr>))))"
  by (auto simp: CompactMemTable_def CheckFlushScheduled_def SetFlushState_def Let_def
          WriteLevel0Table_def LogAndApply_def current_def flush_failed_def
          await_able_to_flush_able await_able_to_flush_None
          split: option.splits)

lemma CompactMemTable_fields:
  assumes "CompactMemTable nd bs as s = Some (Inr s')"
  shows "\<exists>i. imm s = Some i \<and> able_to_flush (tables s i)
     \<and> tables s' = (tables s)(i := (tables s i)\<lparr>flush_state := FLUSH_SCHEDULED\<rparr>)
     \<and> n_tables s' = n_tables s \<and> mem s' = mem s"
  using assms
  by (auto simp: CompactMemTable_eq RecordBackgroundError_def split: option.splits if_splits)

lemma Open_returns:
  assumes "Open M nd rs sm r ls as = Inr (st, Some h)" "mem r = None"
  shows "tables h = (tables r)
           (n_tables r := new_MemTable\<lparr>first_seq := 0, largest_seq_supposed := M - 1\<rparr>)
     \<and> n_tables h = Suc (n_tables r) \<and> mem h = Some (n_tables r) \<and> imm h = imm r
     \<and> bg_error h = bg_error r"
  using assms
  by (auto simp add: Open_def Let_def LogAndApply_def SetFirstSeq_def SetLargestSeq_def
        current_def MaybeScheduleCompaction_def split: if_splits)

section \<open>Invariants of the reachable states\<close>

lemma rotate_fields:
  "n_tables (rotate M m s) = Suc (n_tables s)"
  "mem (rotate M m s) = Some (n_tables s)"
  "imm (rotate M m s) = Some m"
  "m \<noteq> n_tables s \<Longrightarrow> tables (rotate M m s) =
     (tables s)(n_tables s := new_MemTable\<lparr>first_seq := largest_seq_supposed (tables s m) + 1,
                                largest_seq_supposed := largest_seq_supposed (tables s m) + M\<rparr>,
                m := (tables s m)\<lparr>flush_state := FLUSH_REQUESTED\<rparr>)"
  by (simp_all add: rotate_def Let_def MaybeScheduleCompaction_def)

lemma word_less_not_max: "(a::64 word) < q \<Longrightarrow> a \<noteq> - 1"
  by (metis word_order.extremum_strict)

lemma window_chain_rotate:
  assumes "window_chain M s" "mem s = Some m" "largest_seq_supposed (tables s m) < q"
  shows "window_chain M (rotate M m s)"
proof -
  from assms have n: "n_tables s = Suc m"
    by (auto simp: window_chain_def)
  then have ne: "m \<noteq> n_tables s" by simp
  from assms(3) have nm: "largest_seq_supposed (tables s m) \<noteq> - 1" by (rule word_less_not_max)
  have T: "tables (rotate M m s) =
     (tables s)(Suc m := new_MemTable\<lparr>first_seq := largest_seq_supposed (tables s m) + 1,
                                largest_seq_supposed := largest_seq_supposed (tables s m) + M\<rparr>,
                m := (tables s m)\<lparr>flush_state := FLUSH_REQUESTED\<rparr>)"
    using rotate_fields(4) [OF ne, of M] by (simp add: n)
  have N: "n_tables (rotate M m s) = Suc (Suc m)" "mem (rotate M m s) = Some (Suc m)"
    by (simp_all add: rotate_fields n)
  from assms(1) have c0: "first_seq (tables s 0) = 0" "largest_seq_supposed (tables s 0) = M - 1"
    and ch: "\<And>i. Suc i < Suc m \<Longrightarrow> largest_seq_supposed (tables s i) \<noteq> - 1
            \<and> first_seq (tables s (Suc i)) = largest_seq_supposed (tables s i) + 1
            \<and> largest_seq_supposed (tables s (Suc i)) = largest_seq_supposed (tables s i) + M"
    by (simp_all add: window_chain_def n)
  show ?thesis
    unfolding window_chain_def N T
  proof (intro conjI allI impI)
    fix i assume "Suc i < Suc (Suc m)"
    then consider "i = m" | "Suc i < Suc m" by linarith
    then show "largest_seq_supposed (((tables s)
          (Suc m := new_MemTable\<lparr>first_seq := largest_seq_supposed (tables s m) + 1,
                      largest_seq_supposed := largest_seq_supposed (tables s m) + M\<rparr>,
           m := (tables s m)\<lparr>flush_state := FLUSH_REQUESTED\<rparr>)) i) \<noteq> - 1"
      using nm ch by cases auto
  next
    fix i assume "Suc i < Suc (Suc m)"
    then consider "i = m" | "Suc i < Suc m" by linarith
    then show "first_seq (((tables s)
          (Suc m := new_MemTable\<lparr>first_seq := largest_seq_supposed (tables s m) + 1,
                      largest_seq_supposed := largest_seq_supposed (tables s m) + M\<rparr>,
           m := (tables s m)\<lparr>flush_state := FLUSH_REQUESTED\<rparr>)) (Suc i)) =
        largest_seq_supposed (((tables s)
          (Suc m := new_MemTable\<lparr>first_seq := largest_seq_supposed (tables s m) + 1,
                      largest_seq_supposed := largest_seq_supposed (tables s m) + M\<rparr>,
           m := (tables s m)\<lparr>flush_state := FLUSH_REQUESTED\<rparr>)) i) + 1"
      using ch by cases auto
  next
    fix i assume "Suc i < Suc (Suc m)"
    then consider "i = m" | "Suc i < Suc m" by linarith
    then show "largest_seq_supposed (((tables s)
          (Suc m := new_MemTable\<lparr>first_seq := largest_seq_supposed (tables s m) + 1,
                      largest_seq_supposed := largest_seq_supposed (tables s m) + M\<rparr>,
           m := (tables s m)\<lparr>flush_state := FLUSH_REQUESTED\<rparr>)) (Suc i)) =
        largest_seq_supposed (((tables s)
          (Suc m := new_MemTable\<lparr>first_seq := largest_seq_supposed (tables s m) + 1,
                      largest_seq_supposed := largest_seq_supposed (tables s m) + M\<rparr>,
           m := (tables s m)\<lparr>flush_state := FLUSH_REQUESTED\<rparr>)) i) + M"
      using ch by cases auto
  qed (use c0 in \<open>auto\<close>)
qed

lemma window_chain_tables_upd:
  assumes "window_chain M s" "first_seq t = first_seq (tables s p)"
    "largest_seq_supposed t = largest_seq_supposed (tables s p)"
    "tables s' = (tables s)(p := t)" "n_tables s' = n_tables s" "mem s' = mem s"
  shows "window_chain M s'"
  using assms(1,2,3) unfolding window_chain_def assms(4,5,6) by auto

lemma window_chain_Write_apply:
  assumes "window_chain M s" "Write_apply M nd s q b = Some (Inr (st, s'))"
  shows "window_chain M s'"
proof -
  from Write_apply_returns [OF assms(2)] obtain p s1 where
    pk: "PickupTableToWrite M nd s q = Some (Inr (OK, p, s1))" and
    s': "s' = s1\<lparr>tables := (tables s1)
                  (p := increase_kv_num M (length b) (InsertInto b q (tables s1 p)))\<rparr>"
    by blast
  from PickupTableToWrite_returns [OF pk] assms(1) have "window_chain M s1"
    by (auto intro: window_chain_rotate)
  then show ?thesis
    by (rule window_chain_tables_upd [where p = p
          and t = "increase_kv_num M (length b) (InsertInto b q (tables s1 p))"])
       (simp_all add: s' increase_kv_num_def InsertInto_fields)
qed

lemma window_chain_CompactMemTable:
  assumes "window_chain M s" "CompactMemTable nd bs as s = Some (Inr s')"
  shows "window_chain M s'"
proof -
  from CompactMemTable_fields [OF assms(2)] obtain i where
    f: "tables s' = (tables s)(i := (tables s i)\<lparr>flush_state := FLUSH_SCHEDULED\<rparr>)"
       "n_tables s' = n_tables s" "mem s' = mem s"
    by blast
  from assms(1) show ?thesis
    by (rule window_chain_tables_upd [where p = i
          and t = "(tables s i)\<lparr>flush_state := FLUSH_SCHEDULED\<rparr>"])
       (simp_all add: f)
qed

lemma window_chain_Open:
  assumes "Open M nd rs sm
             (DBImpl_ctor\<lparr>last_sequence := q, versions := vs, needs_compaction := b\<rparr>) ls as
           = Inr (st, Some h)"
  shows "window_chain M h"
proof -
  have "mem (DBImpl_ctor\<lparr>last_sequence := q, versions := vs, needs_compaction := b\<rparr>) = None"
    by (simp add: DBImpl_ctor_def)
  from Open_returns [OF assms this] show ?thesis
    by (simp add: window_chain_def DBImpl_ctor_def)
qed

lemma reachable_window_chain: "reachable M nd s \<Longrightarrow> window_chain M s"
proof (induction rule: reachable.induct)
  case (reach_Open recover_status save_manifest q vs b log_status apply_status st h)
  then show ?case by (rule window_chain_Open)
next
  case (reach_Assign s n)
  then show ?case by (simp add: AssignSequnceNumbers_def window_chain_def)
next
  case (reach_Write_apply s sequence updates st s')
  then show ?case using window_chain_Write_apply by blast
next
  case (reach_CompactMemTable s build_status apply_status s')
  then show ?case using window_chain_CompactMemTable by blast
next
  case (reach_MaybeScheduleCompaction s)
  then show ?case by (simp add: window_chain_def MaybeScheduleCompaction_def)
next
  case (reach_shutting_down s)
  then show ?case by (simp add: window_chain_def)
next
  case (reach_manual_compaction s b)
  then show ?case by (simp add: window_chain_def)
next
  case (reach_needs_compaction s b)
  then show ?case by (simp add: window_chain_def)
qed

lemma flush_barrier_tables_upd:
  assumes "flush_barrier M s" "tables s' = (tables s)(p := t)"
    "able_to_flush t \<longrightarrow> kv_num t = unat M" "flush_state t \<noteq> FLUSHED"
    "flush_state t = FLUSH_SCHEDULED \<longrightarrow> unat M \<le> kv_num t"
  shows "flush_barrier M s'"
  using assms(1,3,4,5) unfolding flush_barrier_def assms(2) by auto

lemma flush_barrier_rotate:
  assumes "flush_barrier M s" "m \<noteq> n_tables s"
  shows "flush_barrier M (rotate M m s)"
  using assms(1) unfolding flush_barrier_def rotate_fields(4) [OF assms(2)]
  by (auto simp: new_MemTable_def)

lemma flush_barrier_Write_apply:
  assumes "flush_barrier M s" "window_chain M s"
    "Write_apply M nd s q b = Some (Inr (st, s'))"
  shows "flush_barrier M s'"
proof -
  from Write_apply_returns [OF assms(3)] obtain p s1 where
    pk: "PickupTableToWrite M nd s q = Some (Inr (OK, p, s1))" and
    s': "s' = s1\<lparr>tables := (tables s1)
                  (p := increase_kv_num M (length b) (InsertInto b q (tables s1 p)))\<rparr>"
    by blast
  from assms(2) have "\<And>m. mem s = Some m \<Longrightarrow> m \<noteq> n_tables s"
    by (auto simp: window_chain_def)
  with PickupTableToWrite_returns [OF pk] assms(1) have fb: "flush_barrier M s1"
    by (auto intro: flush_barrier_rotate)
  show ?thesis
  proof (rule flush_barrier_tables_upd [OF fb, where p = p
           and t = "increase_kv_num M (length b) (InsertInto b q (tables s1 p))"])
    show "tables s' = (tables s1)
            (p := increase_kv_num M (length b) (InsertInto b q (tables s1 p)))"
      by (simp add: s')
    show "able_to_flush (increase_kv_num M (length b) (InsertInto b q (tables s1 p))) \<longrightarrow>
          kv_num (increase_kv_num M (length b) (InsertInto b q (tables s1 p))) = unat M"
      by (simp add: increase_kv_num_def)
    from fb show
      "flush_state (increase_kv_num M (length b) (InsertInto b q (tables s1 p))) \<noteq> FLUSHED"
      by (simp add: increase_kv_num_def InsertInto_fields flush_barrier_def)
    from fb show
      "flush_state (increase_kv_num M (length b) (InsertInto b q (tables s1 p))) = FLUSH_SCHEDULED
       \<longrightarrow> unat M \<le> kv_num (increase_kv_num M (length b) (InsertInto b q (tables s1 p)))"
      by (auto simp: increase_kv_num_def InsertInto_fields flush_barrier_def
            intro: trans_le_add1)
  qed
qed

lemma flush_barrier_CompactMemTable:
  assumes "flush_barrier M s" "CompactMemTable nd bs as s = Some (Inr s')"
  shows "flush_barrier M s'"
proof -
  from CompactMemTable_fields [OF assms(2)] obtain i where
    a: "able_to_flush (tables s i)" and
    f: "tables s' = (tables s)(i := (tables s i)\<lparr>flush_state := FLUSH_SCHEDULED\<rparr>)"
    by blast
  from assms(1) a have k: "kv_num (tables s i) = unat M" by (simp add: flush_barrier_def)
  show ?thesis
    by (rule flush_barrier_tables_upd [OF assms(1) f]) (simp_all add: k)
qed

lemma flush_barrier_Open:
  assumes "Open M nd rs sm
             (DBImpl_ctor\<lparr>last_sequence := q, versions := vs, needs_compaction := b\<rparr>) ls as
           = Inr (st, Some h)"
  shows "flush_barrier M h"
proof -
  have "mem (DBImpl_ctor\<lparr>last_sequence := q, versions := vs, needs_compaction := b\<rparr>) = None"
    by (simp add: DBImpl_ctor_def)
  from Open_returns [OF assms this] show ?thesis
    by (simp add: flush_barrier_def DBImpl_ctor_def new_MemTable_def)
qed

lemma reachable_flush_barrier: "reachable M nd s \<Longrightarrow> flush_barrier M s"
proof (induction rule: reachable.induct)
  case (reach_Open recover_status save_manifest q vs b log_status apply_status st h)
  then show ?case by (rule flush_barrier_Open)
next
  case (reach_Assign s n)
  then show ?case by (simp add: AssignSequnceNumbers_def flush_barrier_def)
next
  case (reach_Write_apply s sequence updates st s')
  then show ?case using flush_barrier_Write_apply reachable_window_chain by blast
next
  case (reach_CompactMemTable s build_status apply_status s')
  then show ?case using flush_barrier_CompactMemTable by blast
next
  case (reach_MaybeScheduleCompaction s)
  then show ?case by (simp add: flush_barrier_def MaybeScheduleCompaction_def)
next
  case (reach_shutting_down s)
  then show ?case by (simp add: flush_barrier_def)
next
  case (reach_manual_compaction s b)
  then show ?case by (simp add: flush_barrier_def)
next
  case (reach_needs_compaction s b)
  then show ?case by (simp add: flush_barrier_def)
qed

section \<open>Schedules\<close>

lemma Open_db_open: "Open M nd OK False DBImpl_ctor OK OK = Inr (OK, Some (db_open M))"
  by (simp add: Open_def Let_def MaybeScheduleCompaction_def DBImpl_ctor_def db_open_def
        SetFirstSeq_def SetLargestSeq_def)

lemma reachable_db_open: "reachable M nd (db_open M)"
proof -
  have e: "DBImpl_ctor\<lparr>last_sequence := 0, versions := [], needs_compaction := False\<rparr>
             = DBImpl_ctor"
    by (simp add: DBImpl_ctor_def)
  show ?thesis
    by (rule reach_Open [where recover_status = OK and save_manifest = False and q = 0
          and vs = "[]" and b = False and log_status = OK and apply_status = OK and st = OK])
       (simp add: e Open_db_open)
qed

lemma reachable_Write:
  assumes "reachable M nd s" "Write M nd s b = Some (Inr (st, s'))"
  shows "reachable M nd s'"
proof -
  from assms(2) have
    "Write_apply M nd (snd (AssignSequnceNumbers (length b) s))
       (fst (AssignSequnceNumbers (length b) s)) b = Some (Inr (st, s'))"
    by (auto simp: Write_def Let_def split: if_splits prod.splits)
  with reach_Assign [OF assms(1)] show ?thesis by (rule reach_Write_apply)
qed

lemma reachable_run:
  "reachable M nd s \<Longrightarrow> run M nd cs s = Some s' \<Longrightarrow> reachable M nd s'"
proof (induction M nd cs s rule: run.induct)
  case (1 M ndebug s)
  then show ?case by simp
next
  case (2 M ndebug n cs s)
  then show ?case by (auto intro: reach_Assign)
next
  case (3 M ndebug q b cs s)
  from "3.prems"(2) obtain st s1 where w: "Write_apply M ndebug s q b = Some (Inr (st, s1))"
    and o: "ok st" and r: "run M ndebug cs s1 = Some s'"
    by (auto split: option.splits sum.splits if_splits)
  from reach_Write_apply [OF "3.prems"(1) w] have "reachable M ndebug s1" .
  with "3.IH" w o r show ?case by auto
next
  case (4 M ndebug b cs s)
  from "4.prems"(2) obtain st s1 where w: "Write M ndebug s b = Some (Inr (st, s1))"
    and o: "ok st" and r: "run M ndebug cs s1 = Some s'"
    by (auto split: option.splits sum.splits if_splits)
  from reachable_Write [OF "4.prems"(1) w] have "reachable M ndebug s1" .
  with "4.IH" w o r show ?case by auto
next
  case (5 M ndebug bs as cs s)
  from "5.prems"(2) obtain s1 where w: "CompactMemTable ndebug bs as s = Some (Inr s1)"
    and r: "run M ndebug cs s1 = Some s'"
    by (auto split: option.splits sum.splits)
  from reach_CompactMemTable [OF "5.prems"(1) w] have "reachable M ndebug s1" .
  with "5.IH" w r show ?case by auto
qed

text \<open>The equations that evaluate a schedule on a concrete state.\<close>

lemmas eval_simps = Write_def Write_apply_def PickupTableToWrite_eq
  AssignSequnceNumbers_def Let_def db_open_def DBImpl_ctor_def rotate_def
  new_MemTable_def in_window_def
  MaybeScheduleCompaction_def increase_kv_num_def MemTable_Add_def icmp_less_def
  CompactMemTable_eq flush_failed_def
  current_def RecordBackgroundError_def word_le_nat_alt word_less_nat_alt

section \<open>Windows of successive MemTables\<close>

lemma unat_word_succ:
  assumes "(a::64 word) \<noteq> - 1" shows "unat (a + 1) = Suc (unat a)"
proof -
  have "1 + a \<noteq> 0" using assms by (simp add: add_eq_0_iff)
  then have "unat (1 + a) = Suc (unat a)" by (rule unatSuc)
  then show ?thesis by (simp add: add.commute)
qed

lemma windows_disjoint:
  assumes "largest_seq_supposed t \<noteq> - 1" "first_seq t' = largest_seq_supposed t + 1"
  shows "\<not> (in_window t q \<and> in_window t' q)"
proof
  assume a: "in_window t q \<and> in_window t' q"
  then have "unat q \<le> unat (largest_seq_supposed t)" "unat (first_seq t') \<le> unat q"
    by (simp_all add: in_window_def word_le_nat_alt)
  moreover have "unat (first_seq t') = Suc (unat (largest_seq_supposed t))"
    using assms unat_word_succ by simp
  ultimately show False by simp
qed

lemma window_span:
  assumes "largest_seq_supposed t = first_seq t + M - 1" "M \<noteq> 0"
    "unat (first_seq t) + unat M - 1 < 2 ^ 64"
  shows "unat (largest_seq_supposed t) = unat (first_seq t) + unat M - 1"
proof -
  from assms(2) have m: "unat (M - 1) = unat M - 1" by (rule unat_minus_one)
  from assms(2) have "0 < unat M" by (simp add: unat_gt_0)
  with assms(3) m have "unat (first_seq t) + unat (M - 1) < 2 ^ LENGTH(64)" by simp
  then have a: "unat (first_seq t + (M - 1)) = unat (first_seq t) + unat (M - 1)"
    by (simp only: unat_add_lem)
  have e: "first_seq t + M - 1 = first_seq t + (M - 1)" by simp
  have "unat (largest_seq_supposed t) = unat (first_seq t + (M - 1))"
    by (simp only: assms(1) e)
  also have "\<dots> = unat (first_seq t) + (unat M - 1)" by (simp only: a m)
  also have "\<dots> = unat (first_seq t) + unat M - 1" using \<open>0 < unat M\<close> by simp
  finally show ?thesis .
qed

text \<open>
  Claim C3. In every reachable state the store holds the MemTables in the order in which
  \<^verbatim>\<open>DB::Open\<close> and the rotations installed them, and \<^verbatim>\<open>mem_\<close> is the last. For every
  pair of successive tables the window of the new one starts one past
  \<^verbatim>\<open>largest_seq_supposed\<close> of the old one (the addition does not wrap), its largest
  sequence is its first plus \<^verbatim>\<open>MEMTABLE_SEQ_SIZE\<close> minus one (in 64-bit arithmetic; as
  numbers too, so that the window spans \<^verbatim>\<open>MEMTABLE_SEQ_SIZE\<close> sequences, unless that sum
  passes \<open>2^64\<close>), and no sequence number lies in both windows.
\<close>

theorem rotation_windows_contiguous:
  assumes "reachable M ndebug s" "Suc i < n_tables s"
  shows "mem s = Some (n_tables s - 1)
     \<and> first_seq (tables s (Suc i)) = largest_seq_supposed (tables s i) + 1
     \<and> unat (first_seq (tables s (Suc i))) = unat (largest_seq_supposed (tables s i)) + 1
     \<and> largest_seq_supposed (tables s (Suc i)) = first_seq (tables s (Suc i)) + M - 1
     \<and> (M \<noteq> 0 \<and> unat (first_seq (tables s (Suc i))) + unat M - 1 < 2 ^ 64 \<longrightarrow>
          unat (largest_seq_supposed (tables s (Suc i)))
            = unat (first_seq (tables s (Suc i))) + unat M - 1)
     \<and> (\<forall>q. \<not> (in_window (tables s i) q \<and> in_window (tables s (Suc i)) q))"
proof -
  from reachable_window_chain [OF assms(1)] assms(2) have
    m: "mem s = Some (n_tables s - 1)" and
    n: "largest_seq_supposed (tables s i) \<noteq> - 1" and
    f: "first_seq (tables s (Suc i)) = largest_seq_supposed (tables s i) + 1" and
    l: "largest_seq_supposed (tables s (Suc i)) = largest_seq_supposed (tables s i) + M"
    by (simp_all add: window_chain_def)
  from n f have
    u: "unat (first_seq (tables s (Suc i))) = unat (largest_seq_supposed (tables s i)) + 1"
    by (simp add: unat_word_succ)
  from windows_disjoint [OF n f]
  have d: "\<forall>q. \<not> (in_window (tables s i) q \<and> in_window (tables s (Suc i)) q)"
    by blast
  from f l
  have e: "largest_seq_supposed (tables s (Suc i)) = first_seq (tables s (Suc i)) + M - 1"
    by simp
  from window_span [OF e]
  have sp: "M \<noteq> 0 \<and> unat (first_seq (tables s (Suc i))) + unat M - 1 < 2 ^ 64 \<longrightarrow>
          unat (largest_seq_supposed (tables s (Suc i)))
            = unat (first_seq (tables s (Suc i))) + unat M - 1"
    by blast
  from m f u e sp d show ?thesis by blast
qed

theorem rotation_windows_contiguous_witness:
  "case run 2 False [Call_Write [Put ''a'' ''1''], Call_Write [Put ''b'' ''2''],
                     Call_Write [Put ''c'' ''3'']] (db_open 2) of
     None \<Rightarrow> False
   | Some s \<Rightarrow>
       reachable 2 False s \<and> Suc 0 < n_tables s \<and> mem s = Some 1
       \<and> first_seq (tables s 0) = 0 \<and> largest_seq_supposed (tables s 0) = 1
       \<and> first_seq (tables s 1) = 2 \<and> largest_seq_supposed (tables s 1) = 3
       \<and> unat (first_seq (tables s (Suc 0))) = unat (largest_seq_supposed (tables s 0)) + 1
       \<and> largest_seq_supposed (tables s (Suc 0)) = first_seq (tables s (Suc 0)) + 2 - 1
       \<and> (2 :: 64 word) \<noteq> 0
       \<and> unat (first_seq (tables s (Suc 0))) + unat (2 :: 64 word) - 1 < 2 ^ 64
       \<and> unat (largest_seq_supposed (tables s (Suc 0)))
           = unat (first_seq (tables s (Suc 0))) + unat (2 :: 64 word) - 1
       \<and> (\<forall>q. \<not> (in_window (tables s 0) q \<and> in_window (tables s (Suc 0)) q))"
proof -
  obtain s where r: "run 2 False [Call_Write [Put ''a'' ''1''], Call_Write [Put ''b'' ''2''],
                     Call_Write [Put ''c'' ''3'']] (db_open 2) = Some s"
    and f: "n_tables s = 2" "first_seq (tables s 0) = 0" "largest_seq_supposed (tables s 0) = 1"
       "first_seq (tables s 1) = 2" "largest_seq_supposed (tables s 1) = 3"
    by (simp add: eval_simps)
  from reachable_run [OF reachable_db_open r] have re: "reachable 2 False s" .
  from f have lt: "Suc 0 < n_tables s" by simp
  from rotation_windows_contiguous [OF re lt] r re f show ?thesis by simp
qed

section \<open>The flush barrier\<close>

text \<open>
  The count of the barrier holds in every reachable state: a table whose flush state is
  \<^verbatim>\<open>FLUSH_SCHEDULED\<close> (or beyond) does not have fewer applied kvs than its window size; a
  flush worker that finds the immutable table not able to flush does not get past its
  wait; and a worker that returns found the table able to flush, with as many kvs applied
  as the window holds, before it set \<^verbatim>\<open>FLUSH_SCHEDULED\<close>. The count is of inserts,
  whatever their sequences.
\<close>

lemma flush_scheduled_only_when_able:
  assumes "reachable M ndebug s"
  shows "(flush_state (tables s p) = FLUSH_SCHEDULED \<or> flush_state (tables s p) = FLUSHED
            \<longrightarrow> \<not> kv_num (tables s p) < unat M)
     \<and> (\<forall>i. imm s = Some i \<longrightarrow> \<not> able_to_flush (tables s i) \<longrightarrow>
            (\<forall>s'. CompactMemTable ndebug build_status apply_status s \<noteq> Some (Inr s')))
     \<and> (\<forall>s'. CompactMemTable ndebug build_status apply_status s = Some (Inr s') \<longrightarrow>
            (\<exists>i. imm s = Some i \<and> able_to_flush (tables s i) \<and> kv_num (tables s i) = unat M
                 \<and> flush_state (tables s' i) = FLUSH_SCHEDULED))"
proof -
  from reachable_flush_barrier [OF assms] have fb: "flush_barrier M s" .
  then have 1: "flush_state (tables s p) = FLUSH_SCHEDULED \<or> flush_state (tables s p) = FLUSHED
            \<longrightarrow> \<not> kv_num (tables s p) < unat M"
    by (auto simp: flush_barrier_def)
  have 2: "\<forall>i. imm s = Some i \<longrightarrow> \<not> able_to_flush (tables s i) \<longrightarrow>
            (\<forall>s'. CompactMemTable ndebug build_status apply_status s \<noteq> Some (Inr s'))"
    by (simp add: CompactMemTable_eq)
  have 3: "\<forall>s'. CompactMemTable ndebug build_status apply_status s = Some (Inr s') \<longrightarrow>
            (\<exists>i. imm s = Some i \<and> able_to_flush (tables s i) \<and> kv_num (tables s i) = unat M
                 \<and> flush_state (tables s' i) = FLUSH_SCHEDULED)"
  proof (intro allI impI)
    fix s' assume c: "CompactMemTable ndebug build_status apply_status s = Some (Inr s')"
    from CompactMemTable_fields [OF c] obtain i where
      i: "imm s = Some i" "able_to_flush (tables s i)"
         "tables s' = (tables s)(i := (tables s i)\<lparr>flush_state := FLUSH_SCHEDULED\<rparr>)"
      by blast
    with fb have "kv_num (tables s i) = unat M" by (simp add: flush_barrier_def)
    with i show "\<exists>i. imm s = Some i \<and> able_to_flush (tables s i)
                 \<and> kv_num (tables s i) = unat M
                 \<and> flush_state (tables s' i) = FLUSH_SCHEDULED" by simp
  qed
  from 1 2 3 show ?thesis by blast
qed

lemma flush_scheduled_only_when_able_witness:
  "(case run 2 False [Call_Write [Put ''a'' ''1''], Call_Write [Put ''b'' ''2''],
                      Call_Write [Put ''c'' ''3'']] (db_open 2) of
      None \<Rightarrow> False
    | Some s \<Rightarrow>
        reachable 2 False s \<and> imm s = Some 0 \<and> able_to_flush (tables s 0)
        \<and> kv_num (tables s 0) = unat (2 :: 64 word)
        \<and> (case CompactMemTable False OK OK s of
              Some (Inr s') \<Rightarrow>
                reachable 2 False s' \<and> flush_state (tables s' 0) = FLUSH_SCHEDULED
                \<and> \<not> kv_num (tables s' 0) < unat (2 :: 64 word)
            | _ \<Rightarrow> False))
   \<and> (case run 2 False [Call_Write [Put ''a'' ''1''], Call_Write_apply 2 [Put ''c'' ''3'']]
              (db_open 2) of
        None \<Rightarrow> False
      | Some s \<Rightarrow>
          reachable 2 False s \<and> imm s = Some 0 \<and> \<not> able_to_flush (tables s 0)
          \<and> kv_num (tables s 0) < unat (2 :: 64 word)
          \<and> CompactMemTable False OK OK s = None)"
proof -
  obtain s where r: "run 2 False [Call_Write [Put ''a'' ''1''], Call_Write [Put ''b'' ''2''],
                     Call_Write [Put ''c'' ''3'']] (db_open 2) = Some s"
    and f: "imm s = Some 0" "able_to_flush (tables s 0)" "kv_num (tables s 0) = 2"
      "flush_state (tables s 0) = FLUSH_REQUESTED" "\<not> shutting_down s"
    by (simp add: eval_simps)
  from reachable_run [OF reachable_db_open r] have re: "reachable 2 False s" .
  from f obtain s' where c: "CompactMemTable False OK OK s = Some (Inr s')"
    by (simp add: CompactMemTable_eq)
  from reach_CompactMemTable [OF re c] have re': "reachable 2 False s'" .
  from flush_scheduled_only_when_able [OF re, of 0 OK OK] c f
  have fs: "flush_state (tables s' 0) = FLUSH_SCHEDULED" by simp
  from flush_scheduled_only_when_able [OF re', of 0 OK OK] fs
  have k: "\<not> kv_num (tables s' 0) < unat (2 :: 64 word)" by simp
  obtain t where
    rt: "run 2 False [Call_Write [Put ''a'' ''1''], Call_Write_apply 2 [Put ''c'' ''3'']]
              (db_open 2) = Some t"
    and ft: "imm t = Some 0" "\<not> able_to_flush (tables t 0)" "kv_num (tables t 0) = 1"
      "flush_state (tables t 0) = FLUSH_REQUESTED"
    by (simp add: eval_simps)
  from reachable_run [OF reachable_db_open rt] have ret: "reachable 2 False t" .
  from ft have n: "CompactMemTable False OK OK t = None" by (simp add: CompactMemTable_eq)
  from r re f c re' fs k rt ret ft n show ?thesis by simp
qed

text \<open>
  Claim C5. The flush worker should move the immutable table to \<^verbatim>\<open>FLUSH_SCHEDULED\<close> only
  after \<^verbatim>\<open>able_to_flush\<close> has become true, that is, after every reserved sequence of its
  window has landed. In a release build, with \<^verbatim>\<open>MEMTABLE_SEQ_SIZE = 2\<close>: six writers
  reserve the sequences 0 to 5; the writer of sequence 5 runs first and is sent to the
  table of window [2, 3], which counts its insert; the writers of 0 and 1 fill the first
  table, which is flushed; the writer of 2 inserts into the table of window [2, 3], which
  has now counted two inserts and sets \<^verbatim>\<open>able_to_flush\<close>; the writer of 4 rotates and
  makes that table the immutable one. The flush worker finds \<^verbatim>\<open>able_to_flush\<close> true, marks
  the table \<^verbatim>\<open>FLUSH_SCHEDULED\<close> and publishes its contents, the sequences 2 and 5, and
  sets \<^verbatim>\<open>imm_\<close> to null. Sequence 3, reserved and inside the window, has not landed; its
  writer, when it runs, finds it neither in the window of \<^verbatim>\<open>mem_\<close> nor an immutable
  table, and dereferences the null \<^verbatim>\<open>imm_\<close>.
\<close>

theorem flush_scheduled_before_window_landed:
  "case run 2 True
          [Call_Assign 1, Call_Assign 1, Call_Assign 1, Call_Assign 1, Call_Assign 1,
           Call_Assign 1,
           Call_Write_apply 5 [Put ''k'' ''v5''],
           Call_Write_apply 0 [Put ''a'' ''x''],
           Call_Write_apply 1 [Put ''b'' ''y''],
           Call_CompactMemTable OK OK,
           Call_Write_apply 2 [Put ''c'' ''z''],
           Call_Write_apply 4 [Put ''k'' ''v4'']] (db_open 2) of
     None \<Rightarrow> False
   | Some s \<Rightarrow>
       last_sequence s = 6 \<and> imm s = Some 1
       \<and> first_seq (tables s 1) = 2 \<and> largest_seq_supposed (tables s 1) = 3
       \<and> flush_state (tables s 1) = FLUSH_REQUESTED
       \<and> kv_num (tables s 1) = 2 \<and> able_to_flush (tables s 1)
       \<and> map e_seq (table (tables s 1)) = [2, 5]
       \<and> (case CompactMemTable True OK OK s of
             Some (Inr s') \<Rightarrow>
               flush_state (tables s' 1) = FLUSH_SCHEDULED \<and> imm s' = None
               \<and> in_window (tables s' 1) 3
               \<and> map e_seq (table (tables s' 1)) = [2, 5]
               \<and> map (map e_seq) (current s') = [[2, 5], [0, 1]]
               \<and> Write_apply 2 True s' 3 [Put ''d'' ''w''] = Some (Inl NullDeref)
           | _ \<Rightarrow> False)"
  by (simp add: eval_simps)

section \<open>A writer more than one window ahead\<close>

text \<open>
  Claim C4. \<^verbatim>\<open>PickupTableToWrite\<close> should return a MemTable whose window contains the
  writer's sequence, and the batch should go into that table. With
  \<^verbatim>\<open>MEMTABLE_SEQ_SIZE = 2\<close>, six writers reserve the sequences 0 to 5 and the one that
  holds 5 runs first. It finds \<^verbatim>\<open>mem_\<close> with window [0, 1] and \<^verbatim>\<open>imm_\<close> null, installs
  the table with window [2, 3], and returns that table at once: 5 is not in its window.
  A debug build then stops at the assertion of \<^verbatim>\<open>Write\<close>; a release build returns OK
  with the kv of sequence 5 in the table of window [2, 3].
\<close>

theorem PickupTableToWrite_returns_wrong_table:
  "case run 2 True [Call_Assign 1, Call_Assign 1, Call_Assign 1, Call_Assign 1, Call_Assign 1,
                    Call_Assign 1] (db_open 2) of
     None \<Rightarrow> False
   | Some s \<Rightarrow>
       last_sequence s = 6
       \<and> (case PickupTableToWrite 2 False s 5 of
             Some (Inr (st, p, s1)) \<Rightarrow>
               st = OK \<and> p = 1 \<and> first_seq (tables s1 p) = 2
               \<and> largest_seq_supposed (tables s1 p) = 3 \<and> \<not> in_window (tables s1 p) 5
           | _ \<Rightarrow> False)
       \<and> Write_apply 2 False s 5 [Put ''k'' ''v5''] = Some (Inl AssertFailed)
       \<and> (case Write_apply 2 True s 5 [Put ''k'' ''v5''] of
             Some (Inr (st, s2)) \<Rightarrow>
               st = OK \<and> mem s2 = Some 1
               \<and> first_seq (tables s2 1) = 2 \<and> largest_seq_supposed (tables s2 1) = 3
               \<and> table (tables s2 1)
                   = [\<lparr>e_key = ''k'', e_seq = 5, e_type = kTypeValue, e_value = ''v5''\<rparr>]
               \<and> \<not> in_window (tables s2 1) 5
           | _ \<Rightarrow> False)"
  by (simp add: eval_simps)

section \<open>Reads after writes\<close>

text \<open>
  Claim C2. A get of \<open>k\<close> at a snapshot not below the sequence of an accepted write of \<open>k\<close>
  should return the value of that write until a write of \<open>k\<close> with a larger sequence
  supersedes it. In a release build, with \<^verbatim>\<open>MEMTABLE_SEQ_SIZE = 2\<close>: six writers reserve
  the sequences 0 to 5; the writer of sequence 5 puts \<open>k = v5\<close> and is sent to the table of
  window [2, 3]; the writers of 0 and 1 fill the first table, which is flushed; the
  writer of sequence 4 puts \<open>k = v4\<close>, rotates again and writes into the table of window
  [4, 5]. Every write returned OK. A get of \<open>k\<close> at snapshot 5 now finds sequence 4 in
  \<^verbatim>\<open>mem_\<close> and returns \<open>v4\<close>, although the accepted write of sequence 5 is the newest of \<open>k\<close>.
\<close>

theorem Get_misses_newest_write:
  "case run 2 True
          [Call_Assign 1, Call_Assign 1, Call_Assign 1, Call_Assign 1, Call_Assign 1,
           Call_Assign 1,
           Call_Write_apply 5 [Put ''k'' ''v5''],
           Call_Write_apply 0 [Put ''a'' ''x''],
           Call_Write_apply 1 [Put ''b'' ''y''],
           Call_CompactMemTable OK OK,
           Call_Write_apply 4 [Put ''k'' ''v4'']] (db_open 2) of
     None \<Rightarrow> False
   | Some s \<Rightarrow>
       Get s (Some 5) ''k'' False = Inr ((OK, ''v4''), s)
       \<and> Get s None ''k'' False = Inr ((OK, ''v4''), s)
       \<and> imm s = Some 1
       \<and> table (tables s 1)
           = [\<lparr>e_key = ''k'', e_seq = 5, e_type = kTypeValue, e_value = ''v5''\<rparr>]"
  by (simp add: eval_simps Get_def MemTable_Get_def entries_Get_def)

text \<open>A get of a key that was never written answers NotFound in that state.\<close>

lemma Get_unwritten_key:
  "case run 2 True
          [Call_Assign 1, Call_Assign 1, Call_Assign 1, Call_Assign 1, Call_Assign 1,
           Call_Assign 1,
           Call_Write_apply 5 [Put ''k'' ''v5''],
           Call_Write_apply 0 [Put ''a'' ''x''],
           Call_Write_apply 1 [Put ''b'' ''y''],
           Call_CompactMemTable OK OK,
           Call_Write_apply 4 [Put ''k'' ''v4'']] (db_open 2) of
     None \<Rightarrow> False
   | Some s \<Rightarrow> Get s (Some 5) ''z'' False = Inr ((NotFound [], []), s)"
  by (simp add: eval_simps Get_def MemTable_Get_def entries_Get_def)

section \<open>Background errors\<close>





section \<open>A flush that fails\<close>

text \<open>
  Claim C7, as stated: when a failure other than the shutdown occurs before the version
  edit is applied, \<^verbatim>\<open>CompactMemTable\<close> surfaces an IOError "Deleting DB during ...". When the
  build of the table fails with a Corruption, it is that status which is latched.
\<close>

theorem CompactMemTable_other_failure_counterexample:
  "case run 2 False [Call_Write [Put ''a'' ''1''], Call_Write [Put ''b'' ''2''],
                     Call_Write [Put ''c'' ''3'']] (db_open 2) of
     None \<Rightarrow> False
   | Some s \<Rightarrow>
       (case CompactMemTable False (Corruption ''bad block'') OK s of
          Some (Inr s') \<Rightarrow>
            bg_error s' = Corruption ''bad block''
            \<and> bg_error s' \<noteq> IOError ''Deleting DB during memtable compaction''
        | _ \<Rightarrow> False)"
  by (simp add: eval_simps)

text \<open>
  Claim C7, amended. When \<^verbatim>\<open>shutting_down_\<close> is seen after the table has been built,
  the status becomes \<^verbatim>\<open>IOError("Deleting DB during memtable compaction")\<close>; when the
  build fails, the status is that of the build. In both cases \<^verbatim>\<open>CompactMemTable\<close>
  returns after passing the status to \<^verbatim>\<open>RecordBackgroundError\<close>, which latches it
  unless an earlier error is latched; \<^verbatim>\<open>imm_\<close> keeps the immutable table and no Version
  is published. The table has already been marked \<^verbatim>\<open>FLUSH_SCHEDULED\<close>.
\<close>

theorem CompactMemTable_failure:
  assumes "imm s = Some i" "able_to_flush (tables s i)"
    "ndebug \<or> flush_state (tables s i) \<noteq> FLUSH_SCHEDULED"
    "\<not> ok build_status \<or> shutting_down s"
  shows "\<exists>s'. CompactMemTable ndebug build_status apply_status s = Some (Inr s')
     \<and> imm s' = Some i \<and> versions s' = versions s
     \<and> bg_error s' =
         (if ok (bg_error s)
          then (if ok build_status then IOError ''Deleting DB during memtable compaction''
                else build_status)
          else bg_error s)
     \<and> flush_state (tables s' i) = FLUSH_SCHEDULED"
  using assms
  by (auto simp: CompactMemTable_eq RecordBackgroundError_def flush_failed_def)

theorem CompactMemTable_failure_witness:
  "case run 2 False [Call_Write [Put ''a'' ''1''], Call_Write [Put ''b'' ''2''],
                     Call_Write [Put ''c'' ''3'']] (db_open 2) of
     None \<Rightarrow> False
   | Some s0 \<Rightarrow>
       imm (s0\<lparr>shutting_down := True\<rparr>) = Some 0
       \<and> able_to_flush (tables (s0\<lparr>shutting_down := True\<rparr>) 0)
       \<and> flush_state (tables (s0\<lparr>shutting_down := True\<rparr>) 0) \<noteq> FLUSH_SCHEDULED
       \<and> shutting_down (s0\<lparr>shutting_down := True\<rparr>)
       \<and> (case CompactMemTable False OK OK (s0\<lparr>shutting_down := True\<rparr>) of
             Some (Inr s') \<Rightarrow>
               imm s' = Some 0 \<and> versions s' = versions s0
               \<and> bg_error s' = IOError ''Deleting DB during memtable compaction''
               \<and> flush_state (tables s' 0) = FLUSH_SCHEDULED
           | _ \<Rightarrow> False)"
proof -
  obtain s0 where r: "run 2 False [Call_Write [Put ''a'' ''1''], Call_Write [Put ''b'' ''2''],
                     Call_Write [Put ''c'' ''3'']] (db_open 2) = Some s0"
    and f: "ok (bg_error s0)" "imm s0 = Some 0" "able_to_flush (tables s0 0)"
       "flush_state (tables s0 0) = FLUSH_REQUESTED"
    by (simp add: eval_simps)
  from f have h: "imm (s0\<lparr>shutting_down := True\<rparr>) = Some 0"
    "able_to_flush (tables (s0\<lparr>shutting_down := True\<rparr>) 0)"
    "False \<or> flush_state (tables (s0\<lparr>shutting_down := True\<rparr>) 0) \<noteq> FLUSH_SCHEDULED"
    "\<not> ok OK \<or> shutting_down (s0\<lparr>shutting_down := True\<rparr>)"
    by simp_all
  from CompactMemTable_failure [OF h, of OK] r f show ?thesis by auto
qed


end
